theory Spec2Isabelle
  imports Main "HOL-Library.Sublist"
begin

section \<open>JavaScript strings\<close>

text \<open>
  A JavaScript string is modelled as the \<open>string\<close> of its UTF-8 bytes. The characters
  the tool looks for (the slash, the backslash, the dot, the letters of \<open>index\<close>) are
  single bytes that are part of no longer encoding, so \<open>startsWith\<close>, \<open>endsWith\<close> and
  \<open>includes\<close> say the same of the bytes as of the code units, and cutting the six code
  units of \<open>/index\<close> cuts six bytes. The methods the tool calls on strings are the
  library's list operations.
\<close>

definition startsWith :: "string \<Rightarrow> string \<Rightarrow> bool" where
  "startsWith s p = prefix p s"

definition endsWith :: "string \<Rightarrow> string \<Rightarrow> bool" where
  "endsWith s p = suffix p s"

definition str_includes :: "string \<Rightarrow> string \<Rightarrow> bool" where
  "str_includes s t = sublist t s"

text \<open>\<open>s.substring(0, n)\<close> for \<open>0 \<le> n\<close>.\<close>

definition substring0 :: "string \<Rightarrow> nat \<Rightarrow> string" where
  "substring0 s n = take n s"

text \<open>\<open>normalizePath\<close>: \<open>p.replace(/\\/g, '/')\<close>, every backslash becomes a slash.\<close>

definition normalizePath :: "string \<Rightarrow> string" where
  "normalizePath p = map (\<lambda>c. if c = CHR 0x5C then CHR ''/'' else c) p"

section \<open>Node's \<open>path\<close> module (POSIX flavour)\<close>

text \<open>
  \<open>path.basename(p)\<close> scans from the end, skips trailing slashes and returns the
  characters up to the next slash.
\<close>

definition path_basename :: "string \<Rightarrow> string" where
  "path_basename p =
     rev (takeWhile (\<lambda>c. c \<noteq> CHR ''/'') (dropWhile (\<lambda>c. c = CHR ''/'') (rev p)))"

text \<open>
  \<open>path.dirname(p)\<close> scans the indices \<open>length p - 1\<close> down to \<open>1\<close>: it skips trailing
  slashes, then the last segment, and cuts the path at the slash it stops on. With no
  such slash the result is \<open>/\<close> for a rooted path and \<open>.\<close> otherwise.
\<close>

definition path_dirname :: "string \<Rightarrow> string" where
  "path_dirname p =
     (if p = [] then ''.''
      else
        let hasRoot = (hd p = CHR ''/'');
            r = dropWhile (\<lambda>c. c \<noteq> CHR ''/'') (dropWhile (\<lambda>c. c = CHR ''/'') (rev (tl p)))
        in if r = [] then (if hasRoot then ''/'' else ''.'')
           else if hasRoot \<and> length r = 1 then ''//''
           else take (length r) p)"

text \<open>Splitting a path at its slashes, and putting segments together again.\<close>

fun split_slash :: "string \<Rightarrow> string list" where
  "split_slash [] = [[]]"
| "split_slash (c # cs) =
     (if c = CHR ''/'' then [] # split_slash cs
      else (case split_slash cs of
              [] \<Rightarrow> [[c]]
            | s # ss \<Rightarrow> (c # s) # ss))"

fun join_slash :: "string list \<Rightarrow> string" where
  "join_slash [] = []"
| "join_slash [s] = s"
| "join_slash (s # t # ss) = s @ ''/'' @ join_slash (t # ss)"

text \<open>
  \<open>normalizeString\<close>, one segment at a time: empty segments and \<open>.\<close> are dropped,
  \<open>..\<close> removes the segment before it (when there is one that is not itself \<open>..\<close>)
  and is otherwise kept only where the path may climb above its start.
\<close>

definition normalizeSegment :: "bool \<Rightarrow> string list \<Rightarrow> string \<Rightarrow> string list" where
  "normalizeSegment allowAboveRoot res seg =
     (if seg = [] \<or> seg = ''.'' then res
      else if seg = ''..'' then
        (if res \<noteq> [] \<and> last res \<noteq> ''..'' then butlast res
         else if allowAboveRoot then res @ [''..'']
         else res)
      else res @ [seg])"

definition normalizeString :: "string \<Rightarrow> bool \<Rightarrow> string" where
  "normalizeString p allowAboveRoot =
     join_slash (foldl (normalizeSegment allowAboveRoot) [] (split_slash p))"

definition path_normalize :: "string \<Rightarrow> string" where
  "path_normalize p =
     (if p = [] then ''.''
      else
        let isAbsolute = (hd p = CHR ''/'');
            trailingSeparator = (last p = CHR ''/'');
            q = normalizeString p (\<not> isAbsolute)
        in if q = [] then (if isAbsolute then ''/'' else if trailingSeparator then ''./'' else ''.'')
           else (if isAbsolute then ''/'' else []) @ q @ (if trailingSeparator then ''/'' else []))"

definition path_join :: "string list \<Rightarrow> string" where
  "path_join args =
     (let joined = join_slash (filter (\<lambda>a. a \<noteq> []) args)
      in if joined = [] then ''.'' else path_normalize joined)"

text \<open>
  The project model reports the path of a source file standardized: absolute, with
  forward slashes only, and with no empty, \<open>.\<close> or \<open>..\<close> segment.
\<close>

definition cleanSegment :: "string \<Rightarrow> bool" where
  "cleanSegment s =
     (s \<noteq> [] \<and> s \<noteq> ''.'' \<and> s \<noteq> ''..'' \<and> CHR ''/'' \<notin> set s \<and> CHR 0x5C \<notin> set s)"

definition standardizedPath :: "string \<Rightarrow> bool" where
  "standardizedPath p =
     (p \<noteq> [] \<and> hd p = CHR ''/'' \<and> list_all cleanSegment (split_slash (tl p)))"

section \<open>The regular expressions of the tool\<close>

text \<open>
  In a JavaScript regular expression without flags, \<open>.\<close> matches every code unit but a
  line terminator, \<open>[^.]\<close> matches every code unit but the dot, and \<open>^\<close> and \<open>$\<close> match
  only at the two ends of the input. The line terminators are the line feed, the carriage
  return, the line separator U+2028 (the bytes \<open>E2 80 A8\<close>) and the paragraph separator
  U+2029 (the bytes \<open>E2 80 A9\<close>). So \<open>.+\<close> matches a string when it is not empty and holds
  none of the four.
\<close>

definition hasLineTerminator :: "string \<Rightarrow> bool" where
  "hasLineTerminator s =
     (CHR 0x0A \<in> set s \<or> CHR 0x0D \<in> set s
      \<or> sublist [CHR 0xE2, CHR 0x80, CHR 0xA8] s
      \<or> sublist [CHR 0xE2, CHR 0x80, CHR 0xA9] s)"

text \<open>
  \<open>fileName.match(/^index(\..+\.)([^.]+)$/)\<close>. The second group holds no dot and
  reaches the end of the name, so it is what follows the last dot; the first group is
  what stands between \<open>index\<close> and the second group. The result is the pair of groups.
\<close>

definition patternMatch :: "string \<Rightarrow> (string \<times> string) option" where
  "patternMatch fileName =
     (let rest = drop 5 fileName;
          g2 = rev (takeWhile (\<lambda>c. c \<noteq> CHR ''.'') (rev rest));
          g1 = take (length rest - length g2) rest
      in if startsWith fileName ''index''
            \<and> 3 \<le> length g1 \<and> hd g1 = CHR ''.'' \<and> last g1 = CHR ''.''
            \<and> \<not> hasLineTerminator (butlast (tl g1))
            \<and> g2 \<noteq> []
         then Some (g1, g2) else None)"

text \<open>\<open>fileName.match(/^index(\.[^.]+)$/)\<close>; the result is the group.\<close>

definition simpleMatch :: "string \<Rightarrow> string option" where
  "simpleMatch fileName =
     (let g = drop 5 fileName
      in if startsWith fileName ''index''
            \<and> 2 \<le> length g \<and> hd g = CHR ''.'' \<and> CHR ''.'' \<notin> set (tl g)
         then Some g else None)"

text \<open>\<open>/^index\.(ts|tsx|js|jsx)$/.test(fileName)\<close>.\<close>

definition isStandardIndexFile :: "string \<Rightarrow> bool" where
  "isStandardIndexFile fileName =
     (startsWith fileName ''index.'' \<and> drop 6 fileName \<in> set [''ts'', ''tsx'', ''js'', ''jsx''])"

section \<open>The project and its collaborators\<close>

text \<open>
  A source file of the in-memory project: the path \<open>getFilePath()\<close> reports, and the
  module specifier of each of its import declarations, in source order. The path of a
  loaded file does not change during a run (the tool renames on disk, through \<open>fs\<close>).
\<close>

record source_file =
  filePath :: string
  importDeclarations :: "string list"

text \<open>An exception, as the \<open>catch\<close> at the top level receives it.\<close>

datatype error = Exception string

text \<open>
  What the tool calls and does not implement: the file system (\<open>fs.existsSync\<close>,
  \<open>fs.renameSync\<close>) and the project model (the loader, the resolution behind
  \<open>imp.getModuleSpecifierSourceFile()\<close>, \<open>project.saveSync()\<close>). The state of the disk
  is of a type \<open>'fs\<close> that only these operations read and change.

  \<^item> \<open>loadProject fs tsConfigPath globs\<close>: \<open>new Project(...)\<close>, then
    \<open>addSourceFilesAtPaths(globs)\<close> and \<open>getSourceFiles()\<close>;
  \<^item> \<open>resolveImport fs path spec\<close>: the path of the source file that the specifier
    \<open>spec\<close>, written in the file at \<open>path\<close>, resolves to, if it resolves;
  \<^item> \<open>saveSync fs project\<close>: the disk after the edited files are written, and the
    exception if one was thrown.
\<close>

record 'fs host =
  existsSync :: "'fs \<Rightarrow> string \<Rightarrow> bool"
  renameSync :: "'fs \<Rightarrow> string \<Rightarrow> string \<Rightarrow> error + 'fs"
  loadProject :: "'fs \<Rightarrow> string \<Rightarrow> string list \<Rightarrow> error + source_file list"
  resolveImport :: "'fs \<Rightarrow> string \<Rightarrow> string \<Rightarrow> string option"
  saveSync :: "'fs \<Rightarrow> source_file list \<Rightarrow> 'fs \<times> error option"

text \<open>
  The two files of the repository differ in how they find the imports to rewrite:
  \<open>src/rename-index-files.ts\<close> asks the project which file an import resolves to,
  the other file (\<open>part_000\<close>) looks at the text of the specifier.
\<close>

datatype variant = ByResolution | BySpecifierText

section \<open>Step 1: the index files\<close>

text \<open>The callback of \<open>allSourceFiles.filter\<close>.\<close>

definition isIndexFile :: "string \<Rightarrow> string \<Rightarrow> bool" where
  "isIndexFile normalizedTargetPath sourceFilePath =
     (let filePath = normalizePath sourceFilePath;
          fileName = path_basename filePath
      in str_includes filePath normalizedTargetPath \<and> startsWith fileName ''index.'')"

definition indexFiles :: "string \<Rightarrow> source_file list \<Rightarrow> source_file list" where
  "indexFiles targetFolderPath allSourceFiles =
     filter (\<lambda>sourceFile. isIndexFile (normalizePath targetFolderPath) (filePath sourceFile))
       allSourceFiles"

section \<open>Step 2: the new name\<close>

definition extension :: "string \<Rightarrow> string" where
  "extension fileName =
     (case patternMatch fileName of
        Some (g1, g2) \<Rightarrow> g1 @ g2
      | None \<Rightarrow>
          (case simpleMatch fileName of
             Some g \<Rightarrow> g
           | None \<Rightarrow> ''.tsx''))"

definition parentName :: "string \<Rightarrow> string" where
  "parentName path = path_basename (path_dirname path)"

definition newBaseName :: "string \<Rightarrow> string" where
  "newBaseName path = parentName path @ extension (path_basename path)"

definition newFilePath :: "string \<Rightarrow> string" where
  "newFilePath path = path_join [path_dirname path, newBaseName path]"

section \<open>Step 4: the imports\<close>

text \<open>
  The rewrite of one specifier in \<open>src/rename-index-files.ts\<close>: an explicit
  \<open>/index\<close> is replaced, anything else is extended.
\<close>

definition rewriteSpecifier :: "string \<Rightarrow> string \<Rightarrow> string" where
  "rewriteSpecifier parent spec =
     (if endsWith spec ''/index''
      then substring0 spec (length spec - 6) @ ''/'' @ parent
      else spec @ ''/'' @ parent)"

text \<open>
  One import declaration \<open>imp\<close> of the file at \<open>sfPath\<close>, while the index file at
  \<open>path\<close> is processed. An import that does not resolve is compared through the string
  \<open>null\<close>, as the source does.
\<close>

definition updateImport ::
  "(string \<Rightarrow> string \<Rightarrow> string option) \<Rightarrow> string \<Rightarrow> string \<Rightarrow> string \<Rightarrow> string" where
  "updateImport resolve path sfPath spec =
     (let sourceFilePath = (case resolve sfPath spec of Some p \<Rightarrow> p | None \<Rightarrow> ''null'')
      in if sourceFilePath = path then rewriteSpecifier (parentName path) spec else spec)"

text \<open>
  \<open>file.getReferencingSourceFiles()\<close>: the loaded files with an import declaration
  that resolves to the file. (The project model also counts other references, such as
  \<open>export ... from\<close>; a file it adds for those has no import declaration that resolves to
  the file, and \<open>updateImport\<close> leaves such a file as it is.)
\<close>

definition isReferencing :: "(string \<Rightarrow> string \<Rightarrow> string option) \<Rightarrow> string \<Rightarrow> source_file \<Rightarrow> bool" where
  "isReferencing resolve path sf =
     list_ex (\<lambda>spec. resolve (filePath sf) spec = Some path) (importDeclarations sf)"

definition updateImports ::
  "(string \<Rightarrow> string \<Rightarrow> string option) \<Rightarrow> string \<Rightarrow> source_file list \<Rightarrow> source_file list" where
  "updateImports resolve path project =
     map (\<lambda>sf. if isReferencing resolve path sf
                then sf\<lparr>importDeclarations :=
                         map (updateImport resolve path (filePath sf)) (importDeclarations sf)\<rparr>
                else sf)
       project"

text \<open>The same step in \<open>part_000\<close>: every import of every file, by the text of its specifier.\<close>

definition updateImportText :: "string \<Rightarrow> string \<Rightarrow> string" where
  "updateImportText parent spec =
     (if endsWith spec (''/'' @ parent @ ''/index'')
      then substring0 spec (length spec - 6) @ ''/'' @ parent
      else if endsWith spec (''/'' @ parent)
      then spec @ ''/'' @ parent
      else spec)"

definition updateImportsText :: "string \<Rightarrow> source_file list \<Rightarrow> source_file list" where
  "updateImportsText path project =
     map (\<lambda>sf. sf\<lparr>importDeclarations :=
                     map (updateImportText (parentName path)) (importDeclarations sf)\<rparr>)
       project"

section \<open>One index file, and all of them\<close>

text \<open>
  The body of \<open>indexFiles.forEach\<close>: rename on disk (an exception leaves the loop),
  then, for a standard index file only, rewrite imports in the in-memory project. The
  imports are resolved on the disk as the rename left it.
\<close>

definition renameIndexFile ::
  "'fs host \<Rightarrow> variant \<Rightarrow> 'fs \<times> source_file list \<Rightarrow> source_file
     \<Rightarrow> (error \<times> 'fs) + ('fs \<times> source_file list)" where
  "renameIndexFile h v st file =
     (let path = filePath file;
          fileName = path_basename path
      in case renameSync h (fst st) path (newFilePath path) of
           Inl e \<Rightarrow> Inl (e, fst st)
         | Inr fs' \<Rightarrow>
             Inr (fs',
                  if isStandardIndexFile fileName
                  then (case v of
                          ByResolution \<Rightarrow> updateImports (resolveImport h fs') path (snd st)
                        | BySpecifierText \<Rightarrow> updateImportsText path (snd st))
                  else snd st))"

fun forEachIndexFile ::
  "'fs host \<Rightarrow> variant \<Rightarrow> 'fs \<times> source_file list \<Rightarrow> source_file list
     \<Rightarrow> (error \<times> 'fs) + ('fs \<times> source_file list)" where
  "forEachIndexFile h v st [] = Inr st"
| "forEachIndexFile h v st (file # files) =
     (case renameIndexFile h v st file of
        Inl e \<Rightarrow> Inl e
      | Inr st' \<Rightarrow> forEachIndexFile h v st' files)"

section \<open>The program\<close>

datatype message =
    TargetFolder string
  | ProjectFolder string
  | UsingTsconfig string
  | FoundTotal nat
  | FoundIndexFiles nat
  | Success
  | TsconfigNotFound string
  | TargetFolderNotFound string
  | ErrorOccurred error

text \<open>
  What a run leaves behind: the exit status, the lines of \<open>console.log\<close> and of
  \<open>console.error\<close>, and the disk. Edits of the in-memory project reach the disk only
  through \<open>saveSync\<close>.
\<close>

record 'fs outcome =
  exitCode :: nat
  logged :: "message list"
  errors :: "message list"
  disk :: "'fs"

definition globs :: "variant \<Rightarrow> string \<Rightarrow> string list" where
  "globs v projectFolderPath =
     (case v of
        ByResolution \<Rightarrow>
          [projectFolderPath @ ''/**/*.{ts,tsx,js,jsx}'',
           projectFolderPath @ ''/**/*.test.{ts,tsx,js,jsx}'',
           projectFolderPath @ ''/**/*.tests.{ts,tsx,js,jsx}'']
      | BySpecifierText \<Rightarrow>
          [projectFolderPath @ ''/**/*.{ts,tsx,js,jsx}'',
           projectFolderPath @ ''/**/*.tests.{ts,tsx,js,jsx}''])"

text \<open>The positional arguments and their defaults.\<close>

definition targetFolderPathOf :: "string list \<Rightarrow> string" where
  "targetFolderPathOf args = (if 1 \<le> length args then args ! 0 else ''src'')"

definition tsConfigPathOf :: "string list \<Rightarrow> string" where
  "tsConfigPathOf args = (if 2 \<le> length args then args ! 1 else ''tsconfig.json'')"

definition projectFolderPathOf :: "string list \<Rightarrow> string" where
  "projectFolderPathOf args =
     (if 3 \<le> length args then args ! 2 else path_dirname (tsConfigPathOf args))"

definition main :: "'fs host \<Rightarrow> variant \<Rightarrow> 'fs \<Rightarrow> string list \<Rightarrow> 'fs outcome" where
  "main h v fs args =
     (let targetFolderPath = targetFolderPathOf args;
          tsConfigPath = tsConfigPathOf args;
          projectFolderPath = projectFolderPathOf args;
          out0 = [TargetFolder targetFolderPath, ProjectFolder projectFolderPath,
                  UsingTsconfig tsConfigPath]
      in if \<not> existsSync h fs tsConfigPath then
           \<lparr>exitCode = 1, logged = out0, errors = [TsconfigNotFound tsConfigPath], disk = fs\<rparr>
         else if \<not> existsSync h fs targetFolderPath then
           \<lparr>exitCode = 1, logged = out0, errors = [TargetFolderNotFound targetFolderPath],
            disk = fs\<rparr>
         else
           (case loadProject h fs tsConfigPath (globs v projectFolderPath) of
              Inl e \<Rightarrow> \<lparr>exitCode = 1, logged = out0, errors = [ErrorOccurred e], disk = fs\<rparr>
            | Inr allSourceFiles \<Rightarrow>
                (let found = indexFiles targetFolderPath allSourceFiles;
                     out1 = out0
                       @ (case v of ByResolution \<Rightarrow> []
                                  | BySpecifierText \<Rightarrow> [FoundTotal (length allSourceFiles)])
                       @ [FoundIndexFiles (length found)]
                 in case forEachIndexFile h v (fs, allSourceFiles) found of
                      Inl (e, fs') \<Rightarrow>
                        \<lparr>exitCode = 1, logged = out1, errors = [ErrorOccurred e], disk = fs'\<rparr>
                    | Inr (fs', project) \<Rightarrow>
                        (case saveSync h fs' project of
                           (fs'', Some e) \<Rightarrow>
                             \<lparr>exitCode = 1, logged = out1, errors = [ErrorOccurred e],
                              disk = fs''\<rparr>
                         | (fs'', None) \<Rightarrow>
                             \<lparr>exitCode = 0, logged = out1 @ [Success], errors = [],
                              disk = fs''\<rparr>))))"

section \<open>A small project\<close>

text \<open>
  A project of three files, used where a property is checked on a concrete input. The
  application imports the \<open>Button\<close> directory twice (once with an explicit \<open>/index\<close>),
  one file that is only called \<open>Button\<close>, and a package. The disk is the list of the
  paths that exist.
\<close>

definition exampleProject :: "source_file list" where
  "exampleProject =
     [\<lparr>filePath = ''/proj/src/components/Button/index.tsx'', importDeclarations = [''react'']\<rparr>,
      \<lparr>filePath = ''/proj/src/other/Button.ts'', importDeclarations = []\<rparr>,
      \<lparr>filePath = ''/proj/src/App.tsx'',
       importDeclarations =
         [''./components/Button'', ''./components/Button/index'', ''./other/Button'', ''react'']\<rparr>]"

definition exampleResolve :: "string \<Rightarrow> string \<Rightarrow> string option" where
  "exampleResolve path spec =
     (if path = ''/proj/src/App.tsx'' \<and> spec = ''./components/Button''
        then Some ''/proj/src/components/Button/index.tsx''
      else if path = ''/proj/src/App.tsx'' \<and> spec = ''./components/Button/index''
        then Some ''/proj/src/components/Button/index.tsx''
      else if path = ''/proj/src/App.tsx'' \<and> spec = ''./other/Button''
        then Some ''/proj/src/other/Button.ts''
      else None)"

definition exampleHost :: "string list host" where
  "exampleHost =
     \<lparr>existsSync = (\<lambda>fs p. p \<in> set fs),
      renameSync = (\<lambda>fs old new.
        if old \<in> set fs then Inr (new # removeAll new (removeAll old fs))
        else Inl (Exception ''ENOENT'')),
      loadProject = (\<lambda>fs tsConfigPath patterns. Inr exampleProject),
      resolveImport = (\<lambda>fs. exampleResolve),
      saveSync = (\<lambda>fs project. (fs, None))\<rparr>"

definition exampleDisk :: "string list" where
  "exampleDisk =
     [''tsconfig.json'', ''src'', ''/proj/src/components/Button/index.tsx'',
      ''/proj/src/other/Button.ts'', ''/proj/src/App.tsx'']"

section \<open>Strings and regular expressions: basic facts\<close>

lemma startsWith_append [simp]: "startsWith (p @ s) p"
  by (simp add: startsWith_def)

lemma startsWith_iff: "startsWith s p \<longleftrightarrow> (\<exists>t. s = p @ t)"
  by (auto simp: startsWith_def prefix_def)

lemma endsWith_iff: "endsWith s p \<longleftrightarrow> (\<exists>t. s = t @ p)"
  by (auto simp: endsWith_def suffix_def)

lemma no_line_terminator:
  assumes "CHR 0x0A \<notin> set s" "CHR 0x0D \<notin> set s" "CHR 0xE2 \<notin> set s"
  shows "\<not> hasLineTerminator s"
  using assms by (auto simp: hasLineTerminator_def dest: set_mono_sublist)

lemma last_segment:
  assumes "CHR ''.'' \<notin> set e"
  shows "rev (takeWhile (\<lambda>c. c \<noteq> CHR ''.'') (rev (xs @ ''.'' @ e))) = e"
proof -
  have "takeWhile (\<lambda>c. c \<noteq> CHR ''.'') (rev e @ CHR ''.'' # rev xs) = rev e"
    using assms by (subst takeWhile_append2) auto
  then show ?thesis by simp
qed

lemma takeWhile_rev_decomp:
  "\<exists>ys. xs = ys @ rev (takeWhile P (rev xs)) \<and> (ys = [] \<or> \<not> P (last ys))"
proof -
  have "rev xs = takeWhile P (rev xs) @ dropWhile P (rev xs)" by simp
  then have "xs = rev (dropWhile P (rev xs)) @ rev (takeWhile P (rev xs))"
    by (metis rev_append rev_rev_ident)
  moreover have "rev (dropWhile P (rev xs)) = [] \<or> \<not> P (last (rev (dropWhile P (rev xs))))"
    using hd_dropWhile[of P "rev xs"] by (cases "dropWhile P (rev xs)") (auto simp: last_rev)
  ultimately show ?thesis by blast
qed

lemma patternMatch_shape:
  assumes "mid \<noteq> []" "\<not> hasLineTerminator mid" "e \<noteq> []" "CHR ''.'' \<notin> set e"
  shows "patternMatch (''index.'' @ mid @ ''.'' @ e) = Some (''.'' @ mid @ ''.'', e)"
proof -
  define g where "g = ''.'' @ mid @ ''.''"
  have r: "drop 5 (''index.'' @ mid @ ''.'' @ e) = g @ e" by (simp add: g_def)
  have "rev (takeWhile (\<lambda>c. c \<noteq> CHR ''.'') (rev ((''.'' @ mid) @ ''.'' @ e))) = e"
    by (rule last_segment[OF assms(4)])
  then have g2: "rev (takeWhile (\<lambda>c. c \<noteq> CHR ''.'') (rev (g @ e))) = e"
    by (simp add: g_def)
  have g1: "take (length (g @ e) - length e) (g @ e) = g" by simp
  have p: "3 \<le> length g" "hd g = CHR ''.''" "last g = CHR ''.''" "butlast (tl g) = mid"
    using assms(1) by (cases mid; simp add: g_def butlast_append)+
  show ?thesis
    unfolding patternMatch_def r g2 Let_def g1
    using assms p by (simp add: startsWith_def g_def)
qed

lemma patternMatch_SomeD:
  assumes "patternMatch f = Some (g1, g2)"
  shows "\<exists>mid. f = ''index'' @ g1 @ g2 \<and> g1 = ''.'' @ mid @ ''.'' \<and> mid \<noteq> []
          \<and> \<not> hasLineTerminator mid \<and> g2 \<noteq> [] \<and> CHR ''.'' \<notin> set g2"
proof -
  define rest where "rest = drop 5 f"
  define e where "e = rev (takeWhile (\<lambda>c. c \<noteq> CHR ''.'') (rev rest))"
  define g where "g = take (length rest - length e) rest"
  from assms have c: "startsWith f ''index''" "3 \<le> length g" "hd g = CHR ''.''" "last g = CHR ''.''"
    "\<not> hasLineTerminator (butlast (tl g))" "e \<noteq> []" and eq: "g1 = g" "g2 = e"
    unfolding patternMatch_def rest_def[symmetric] Let_def e_def[symmetric] g_def[symmetric]
    by (auto split: if_splits)
  obtain ys where ys: "rest = ys @ e" using takeWhile_rev_decomp[of rest] e_def by blast
  then have gy: "g = ys" by (simp add: g_def)
  have f: "f = ''index'' @ rest" using c(1) by (auto simp: startsWith_iff rest_def)
  have nodot: "CHR ''.'' \<notin> set e"
    using set_takeWhileD[of "CHR ''.''" "\<lambda>c. c \<noteq> CHR ''.''" "rev rest"] by (auto simp: e_def)
  obtain a t where g3: "g = a # t" "t \<noteq> []" using c(2) by (cases g; cases "tl g") auto
  then have a: "a = CHR ''.''" using c(3) by simp
  have t: "t = butlast t @ ''.''" using g3 c(4) by (metis append_butlast_last_id last_ConsR)
  have "butlast t \<noteq> []" using c(2) g3 by (cases t rule: rev_cases) auto
  moreover have "g = ''.'' @ butlast t @ ''.''" using g3 a t by simp
  moreover have "\<not> hasLineTerminator (butlast t)" using c(5) g3 by simp
  ultimately show ?thesis using f ys gy eq c(6) nodot by auto
qed

lemma patternMatch_iff:
  "patternMatch f = Some (g1, g2) \<longleftrightarrow>
     (\<exists>mid. f = ''index'' @ g1 @ g2 \<and> g1 = ''.'' @ mid @ ''.'' \<and> mid \<noteq> []
          \<and> \<not> hasLineTerminator mid \<and> g2 \<noteq> [] \<and> CHR ''.'' \<notin> set g2)"
  using patternMatch_SomeD[of f g1 g2] patternMatch_shape by auto

lemma simpleMatch_iff:
  "simpleMatch f = Some g \<longleftrightarrow>
     (\<exists>e. f = ''index'' @ g \<and> g = ''.'' @ e \<and> e \<noteq> [] \<and> CHR ''.'' \<notin> set e)"
proof
  assume "simpleMatch f = Some g"
  then have c: "startsWith f ''index''" "2 \<le> length g" "hd g = CHR ''.''" "CHR ''.'' \<notin> set (tl g)"
    and g: "g = drop 5 f"
    unfolding simpleMatch_def Let_def by (auto split: if_splits)
  have "f = ''index'' @ g" using c(1) g by (auto simp: startsWith_iff)
  moreover have "g = ''.'' @ tl g" "tl g \<noteq> []" using c(2,3) by (cases g; cases "tl g"; auto)+
  ultimately show "\<exists>e. f = ''index'' @ g \<and> g = ''.'' @ e \<and> e \<noteq> [] \<and> CHR ''.'' \<notin> set e"
    using c(4) by blast
next
  assume "\<exists>e. f = ''index'' @ g \<and> g = ''.'' @ e \<and> e \<noteq> [] \<and> CHR ''.'' \<notin> set e"
  then obtain e where "f = ''index'' @ g" "g = ''.'' @ e" "e \<noteq> []" "CHR ''.'' \<notin> set e" by blast
  then show "simpleMatch f = Some g"
    by (cases e) (auto simp: simpleMatch_def startsWith_def)
qed

lemma isStandardIndexFile_iff:
  "isStandardIndexFile f \<longleftrightarrow> f \<in> {''index.ts'', ''index.tsx'', ''index.js'', ''index.jsx''}"
  by (auto simp: isStandardIndexFile_def startsWith_iff)

section \<open>Paths: basic facts\<close>

lemma split_slash_nonempty [simp]: "split_slash p \<noteq> []"
  by (induction p) (auto split: list.splits)

lemma split_slash_no_slash: "s \<in> set (split_slash p) \<Longrightarrow> CHR ''/'' \<notin> set s"
  by (induction p arbitrary: s) (auto split: list.splits if_splits)

lemma join_split_slash [simp]: "join_slash (split_slash p) = p"
proof (induction p)
  case Nil
  then show ?case by simp
next
  case (Cons c cs)
  obtain s ss where sp: "split_slash cs = s # ss" by (cases "split_slash cs") auto
  with Cons show ?case by (cases ss) auto
qed

lemma split_slash_plain: "CHR ''/'' \<notin> set s \<Longrightarrow> split_slash s = [s]"
  by (induction s) auto

lemma split_slash_append:
  "CHR ''/'' \<notin> set s \<Longrightarrow> split_slash (s @ CHR ''/'' # t) = s # split_slash t"
  by (induction s) auto

lemma split_join_slash:
  "segs \<noteq> [] \<Longrightarrow> \<forall>s\<in>set segs. CHR ''/'' \<notin> set s \<Longrightarrow> split_slash (join_slash segs) = segs"
proof (induction segs rule: join_slash.induct)
  case 1
  then show ?case by simp
next
  case (2 s)
  then show ?case by (simp add: split_slash_plain)
next
  case (3 s t ss)
  then show ?case by (simp add: split_slash_append)
qed

lemma join_slash_snoc:
  "join_slash (ds @ [n]) = (if ds = [] then n else join_slash ds @ ''/'' @ n)"
  by (induction ds rule: join_slash.induct) auto

lemma join_slash_eq_Nil: "join_slash segs = [] \<longleftrightarrow> segs = [] \<or> segs = [[]]"
  by (induction segs rule: join_slash.induct) auto

lemma path_basename_append:
  assumes "n \<noteq> []" "CHR ''/'' \<notin> set n"
  shows "path_basename (q @ ''/'' @ n) = n"
proof -
  obtain a r where r: "rev n = a # r" using assms(1) by (cases "rev n") auto
  then have a: "a \<noteq> CHR ''/''" using assms(2) by (metis list.set_intros(1) set_rev)
  have "dropWhile (\<lambda>c. c = CHR ''/'') (rev (q @ ''/'' @ n)) = rev n @ CHR ''/'' # rev q"
    using r a by simp
  moreover have "takeWhile (\<lambda>c. c \<noteq> CHR ''/'') (rev n @ CHR ''/'' # rev q) = rev n"
    using assms(2) by (subst takeWhile_append2) auto
  ultimately show ?thesis by (simp add: path_basename_def)
qed

lemma path_dirname_append:
  assumes "n \<noteq> []" "CHR ''/'' \<notin> set n"
  shows "path_dirname (q @ ''/'' @ n) = (if q = [] then ''/'' else if q = ''/'' then ''//'' else q)"
proof -
  obtain a r where r: "rev n = a # r" using assms(1) by (cases "rev n") auto
  then have a: "a \<noteq> CHR ''/''" using assms(2) by (metis list.set_intros(1) set_rev)
  have dn: "dropWhile (\<lambda>c. c \<noteq> CHR ''/'') (rev n @ CHR ''/'' # xs) = CHR ''/'' # xs" for xs
    using assms(2) by (subst dropWhile_append2) auto
  show ?thesis
  proof (cases q)
    case Nil
    have "dropWhile (\<lambda>c. c = CHR ''/'') (rev n) = rev n" using r a by simp
    moreover have "dropWhile (\<lambda>c. c \<noteq> CHR ''/'') (rev n) = []" using assms(2) by auto
    ultimately show ?thesis using Nil by (simp add: path_dirname_def)
  next
    case (Cons b q')
    have "dropWhile (\<lambda>c. c = CHR ''/'') (rev (tl (q @ ''/'' @ n))) = rev n @ CHR ''/'' # rev q'"
      using r a Cons by simp
    then have "dropWhile (\<lambda>c. c \<noteq> CHR ''/'') (dropWhile (\<lambda>c. c = CHR ''/'') (rev (tl (q @ ''/'' @ n))))
               = CHR ''/'' # rev q'" using dn by simp
    then show ?thesis using Cons by (auto simp: path_dirname_def Let_def)
  qed
qed

lemma normalizeSegment_clean:
  "cleanSegment s \<Longrightarrow> normalizeSegment b res s = res @ [s]"
  by (auto simp: normalizeSegment_def cleanSegment_def)

lemma normalizeSegment_empty [simp]: "normalizeSegment b res [] = res"
  by (simp add: normalizeSegment_def)

lemma foldl_normalizeSegment_clean:
  "list_all cleanSegment segs \<Longrightarrow> foldl (normalizeSegment b) acc segs = acc @ segs"
  by (induction segs arbitrary: acc) (auto simp: normalizeSegment_clean)

lemma cleanSegment_no_slash: "list_all cleanSegment segs \<Longrightarrow> \<forall>s\<in>set segs. CHR ''/'' \<notin> set s"
  by (auto simp: list_all_iff cleanSegment_def)

lemma standardizedPath_iff:
  "standardizedPath p \<longleftrightarrow>
     (\<exists>segs. segs \<noteq> [] \<and> list_all cleanSegment segs \<and> p = CHR ''/'' # join_slash segs)"
proof
  assume "standardizedPath p"
  then have "p \<noteq> []" "hd p = CHR ''/''" "list_all cleanSegment (split_slash (tl p))"
    by (auto simp: standardizedPath_def)
  then have "p = CHR ''/'' # join_slash (split_slash (tl p))" by (cases p) auto
  then show "\<exists>segs. segs \<noteq> [] \<and> list_all cleanSegment segs \<and> p = CHR ''/'' # join_slash segs"
    using \<open>list_all cleanSegment (split_slash (tl p))\<close> split_slash_nonempty by blast
next
  assume "\<exists>segs. segs \<noteq> [] \<and> list_all cleanSegment segs \<and> p = CHR ''/'' # join_slash segs"
  then obtain segs where s: "segs \<noteq> []" "list_all cleanSegment segs" "p = CHR ''/'' # join_slash segs"
    by blast
  then show "standardizedPath p"
    using split_join_slash[OF s(1) cleanSegment_no_slash[OF s(2)]]
    by (simp add: standardizedPath_def)
qed

lemma path_join_clean:
  assumes "list_all cleanSegment ds" "cleanSegment m"
  shows "path_join [(if ds = [] then ''/'' else CHR ''/'' # join_slash ds), m]
         = CHR ''/'' # join_slash (ds @ [m])"
proof -
  have m: "m \<noteq> []" "last m \<noteq> CHR ''/''" "CHR ''/'' \<notin> set m"
    using assms(2) by (auto simp: cleanSegment_def dest: last_in_set)
  have all: "list_all cleanSegment (ds @ [m])" using assms by simp
  have ns: "\<forall>s\<in>set (ds @ [m]). CHR ''/'' \<notin> set s" by (rule cleanSegment_no_slash[OF all])
  have nn: "join_slash (ds @ [m]) \<noteq> []" using m(1) by (auto simp: join_slash_eq_Nil)
  show ?thesis
  proof (cases "ds = []")
    case True
    have "split_slash (''//'' @ m) = [[], [], m]" using m(3) by (simp add: split_slash_plain)
    then have "normalizeString (''//'' @ m) False = m"
      by (simp add: normalizeString_def normalizeSegment_clean[OF assms(2)])
    then show ?thesis using True m
      by (simp add: path_join_def path_normalize_def Let_def)
  next
    case False
    have j: "(CHR ''/'' # join_slash ds) @ ''/'' @ m = CHR ''/'' # join_slash (ds @ [m])"
      using False by (simp add: join_slash_snoc)
    have "split_slash (CHR ''/'' # join_slash (ds @ [m])) = [] # ds @ [m]"
      using split_join_slash[OF _ ns] by simp
    then have "normalizeString (CHR ''/'' # join_slash (ds @ [m])) False = join_slash (ds @ [m])"
      using foldl_normalizeSegment_clean[OF all, of False "[]"]
      by (simp add: normalizeString_def)
    moreover have "last (CHR ''/'' # join_slash (ds @ [m])) \<noteq> CHR ''/''"
      using m False by (simp add: join_slash_snoc)
    ultimately show ?thesis using False m nn j
      by (simp add: path_join_def path_normalize_def Let_def join_slash_snoc)
  qed
qed

section \<open>The new name: basic facts\<close>

lemma extension_matched:
  assumes "patternMatch f \<noteq> None \<or> simpleMatch f \<noteq> None"
  shows "extension f = drop 5 f \<and> f = ''index'' @ extension f"
proof (cases "patternMatch f")
  case None
  with assms obtain g where g: "simpleMatch f = Some g" by auto
  then have "f = ''index'' @ g" by (auto simp: simpleMatch_iff)
  with None g show ?thesis by (simp add: extension_def)
next
  case (Some a)
  obtain g1 g2 where a: "a = (g1, g2)" by (cases a)
  with Some have "f = ''index'' @ g1 @ g2" using patternMatch_SomeD by blast
  with Some a show ?thesis by (simp add: extension_def)
qed

lemma extension_form:
  "\<exists>x. extension f = ''.'' @ x \<and> x \<noteq> [] \<and> x \<noteq> ''.'' \<and> set x \<subseteq> set f \<union> set ''tsx''"
proof (cases "patternMatch f")
  case None
  show ?thesis
  proof (cases "simpleMatch f")
    case None
    with \<open>patternMatch f = None\<close> have "extension f = ''.'' @ ''tsx''" by (simp add: extension_def)
    then show ?thesis by (intro exI[of _ "''tsx''"]) simp
  next
    case (Some g)
    then obtain e where e: "f = ''index'' @ g" "g = ''.'' @ e" "e \<noteq> []" "CHR ''.'' \<notin> set e"
      by (auto simp: simpleMatch_iff)
    have "extension f = ''.'' @ e" using None Some e by (simp add: extension_def)
    moreover have "e \<noteq> ''.''" using e(4) by auto
    moreover have "set e \<subseteq> set f" using e(1,2) by auto
    ultimately show ?thesis using e(3) by blast
  qed
next
  case (Some a)
  obtain g1 g2 where a: "a = (g1, g2)" by (cases a)
  with Some obtain mid where m: "f = ''index'' @ g1 @ g2" "g1 = ''.'' @ mid @ ''.''" "mid \<noteq> []"
    using patternMatch_SomeD by blast
  have "extension f = ''.'' @ (mid @ ''.'' @ g2)" using Some a m by (simp add: extension_def)
  moreover have "mid @ ''.'' @ g2 \<noteq> ''.''" using m(3) by (cases mid) auto
  moreover have "set (mid @ ''.'' @ g2) \<subseteq> set f" using m(1,2) by auto
  ultimately show ?thesis by blast
qed

lemma cleanSegment_with_extension:
  assumes "P = [] \<or> cleanSegment P" "CHR ''/'' \<notin> set f" "CHR 0x5C \<notin> set f"
  shows "cleanSegment (P @ extension f)"
proof -
  obtain x where x: "extension f = ''.'' @ x" "x \<noteq> []" "x \<noteq> ''.''" "set x \<subseteq> set f \<union> set ''tsx''"
    using extension_form by blast
  have "CHR ''/'' \<notin> set x" "CHR 0x5C \<notin> set x" using x(4) assms(2,3) by auto
  moreover have "CHR ''/'' \<notin> set P" "CHR 0x5C \<notin> set P" using assms(1) by (auto simp: cleanSegment_def)
  moreover have "P @ ''.'' @ x \<noteq> ''..''" using x(2,3) by (cases P; cases "tl P"; cases x) auto
  moreover have "P @ ''.'' @ x \<noteq> ''.''" using x(2) by (cases P) auto
  ultimately show ?thesis using x(1) by (simp add: cleanSegment_def)
qed

lemma standardizedPath_split:
  assumes "standardizedPath p"
  obtains ds n where "list_all cleanSegment ds" "cleanSegment n" "p = CHR ''/'' # join_slash (ds @ [n])"
proof -
  from assms obtain segs where s: "segs \<noteq> []" "list_all cleanSegment segs" "p = CHR ''/'' # join_slash segs"
    by (auto simp: standardizedPath_iff)
  then have "list_all cleanSegment (butlast segs)" "cleanSegment (last segs)"
    "p = CHR ''/'' # join_slash (butlast segs @ [last segs])"
    by (auto simp: list_all_iff dest: in_set_butlastD)
  then show ?thesis using that by blast
qed

lemma abs_snoc:
  "CHR ''/'' # join_slash (ds @ [n]) = (if ds = [] then [] else CHR ''/'' # join_slash ds) @ ''/'' @ n"
  by (simp add: join_slash_snoc)

lemma standardized_parts:
  assumes "list_all cleanSegment ds" "cleanSegment n" "p = CHR ''/'' # join_slash (ds @ [n])"
  shows "path_basename p = n"
    and "path_dirname p = (if ds = [] then ''/'' else CHR ''/'' # join_slash ds)"
    and "parentName p = (if ds = [] then [] else last ds)"
proof -
  have n: "n \<noteq> []" "CHR ''/'' \<notin> set n" using assms(2) by (auto simp: cleanSegment_def)
  show b: "path_basename p = n"
    unfolding assms(3) abs_snoc by (rule path_basename_append[OF n])
  have jn: "ds \<noteq> [] \<Longrightarrow> join_slash ds \<noteq> []"
    using assms(1) by (cases ds rule: rev_cases) (auto simp: join_slash_eq_Nil cleanSegment_def)
  show d: "path_dirname p = (if ds = [] then ''/'' else CHR ''/'' # join_slash ds)"
    unfolding assms(3) abs_snoc
    using jn path_dirname_append[OF n, of "[]"] path_dirname_append[OF n, of "CHR ''/'' # join_slash ds"]
    by auto
  show "parentName p = (if ds = [] then [] else last ds)"
  proof (cases ds rule: rev_cases)
    case Nil
    then show ?thesis by (simp add: parentName_def d path_basename_def)
  next
    case (snoc es e)
    then have e: "e \<noteq> []" "CHR ''/'' \<notin> set e" using assms(1) by (auto simp: cleanSegment_def)
    have "path_basename (CHR ''/'' # join_slash (es @ [e])) = e"
      unfolding abs_snoc by (rule path_basename_append[OF e])
    then show ?thesis using snoc by (simp add: parentName_def d)
  qed
qed

lemma newFilePath_parts:
  assumes "list_all cleanSegment ds" "cleanSegment n" "p = CHR ''/'' # join_slash (ds @ [n])"
  shows "cleanSegment (newBaseName p)"
    and "newFilePath p = CHR ''/'' # join_slash (ds @ [newBaseName p])"
proof -
  note parts = standardized_parts[OF assms]
  have "parentName p = [] \<or> cleanSegment (parentName p)"
    using assms(1) by (cases ds rule: rev_cases) (auto simp: parts(3))
  then show c: "cleanSegment (newBaseName p)"
    unfolding newBaseName_def parts(1)
    using assms(2) by (intro cleanSegment_with_extension) (auto simp: cleanSegment_def)
  show "newFilePath p = CHR ''/'' # join_slash (ds @ [newBaseName p])"
    unfolding newFilePath_def parts(2) by (rule path_join_clean[OF assms(1) c])
qed

lemma normalizePath_id: "CHR 0x5C \<notin> set p \<Longrightarrow> normalizePath p = p"
  by (induction p) (auto simp: normalizePath_def)

lemma standardizedPath_no_backslash: "standardizedPath p \<Longrightarrow> CHR 0x5C \<notin> set p"
proof -
  assume "standardizedPath p"
  then obtain segs where s: "list_all cleanSegment segs" "p = CHR ''/'' # join_slash segs"
    by (auto simp: standardizedPath_iff)
  have "list_all cleanSegment segs \<Longrightarrow> CHR 0x5C \<notin> set (join_slash segs)"
    by (induction segs rule: join_slash.induct) (auto simp: cleanSegment_def)
  then show ?thesis using s by simp
qed

lemma newFilePath_standardized:
  assumes "standardizedPath p"
  shows "standardizedPath (newFilePath p)"
    and "path_dirname (newFilePath p) = path_dirname p"
    and "path_basename (newFilePath p) = newBaseName p"
proof -
  from assms obtain ds n where s: "list_all cleanSegment ds" "cleanSegment n"
    "p = CHR ''/'' # join_slash (ds @ [n])" by (rule standardizedPath_split)
  note nf = newFilePath_parts[OF s]
  note old = standardized_parts[OF s]
  note new = standardized_parts[OF s(1) nf(1) nf(2)]
  show "standardizedPath (newFilePath p)"
    using s(1) nf by (auto simp: standardizedPath_iff intro!: exI[of _ "ds @ [newBaseName p]"])
  show "path_dirname (newFilePath p) = path_dirname p" by (simp add: new(2) old(2))
  show "path_basename (newFilePath p) = newBaseName p" by (rule new(1))
qed

section \<open>Step 1: which files are selected\<close>

lemma str_includes_iff: "str_includes s t \<longleftrightarrow> (\<exists>before after. s = before @ t @ after)"
  by (simp add: str_includes_def sublist_def)

lemma normalizePath_nth:
  "length (normalizePath p) = length p"
  "i < length p \<Longrightarrow> normalizePath p ! i = (if p ! i = CHR 0x5C then CHR ''/'' else p ! i)"
  by (simp_all add: normalizePath_def)

lemma normalizePath_backslash_free: "CHR 0x5C \<notin> set (normalizePath p)"
  by (auto simp: normalizePath_def)

text \<open>
  Claim C3. A loaded source file is selected for renaming if and only if its path, with
  every backslash replaced by a slash, contains the target folder path, with every
  backslash replaced by a slash, as a substring (anywhere in the path, not only as a
  prefix or as a segment), and its base name starts with \<open>index.\<close>. With the target
  folder \<open>src\<close> the condition is that the path contains \<open>src\<close> anywhere. The base name of
  a path that ends with a slash and a name is that name.
\<close>

theorem C3_selection:
  "(sf \<in> set (indexFiles targetFolderPath allSourceFiles) \<longleftrightarrow>
      sf \<in> set allSourceFiles
      \<and> (\<exists>before after.
            map (\<lambda>c. if c = CHR 0x5C then CHR ''/'' else c) (filePath sf) = before @ map (\<lambda>c. if c = CHR 0x5C then CHR ''/'' else c) targetFolderPath @ after)
      \<and> (\<exists>rest. path_basename (map (\<lambda>c. if c = CHR 0x5C then CHR ''/'' else c) (filePath sf)) = ''index.'' @ rest))
   \<and> (sf \<in> set (indexFiles ''src'' allSourceFiles) \<longleftrightarrow>
      sf \<in> set allSourceFiles
      \<and> (\<exists>before after. map (\<lambda>c. if c = CHR 0x5C then CHR ''/'' else c) (filePath sf) = before @ ''src'' @ after)
      \<and> (\<exists>rest. path_basename (map (\<lambda>c. if c = CHR 0x5C then CHR ''/'' else c) (filePath sf)) = ''index.'' @ rest))
   \<and> (\<forall>dir name.
         map (\<lambda>c. if c = CHR 0x5C then CHR ''/'' else c) (filePath sf) = dir @ ''/'' @ name \<and> name \<noteq> [] \<and> CHR ''/'' \<notin> set name \<longrightarrow>
         (sf \<in> set (indexFiles targetFolderPath allSourceFiles) \<longleftrightarrow>
            sf \<in> set allSourceFiles
            \<and> (\<exists>before after. dir @ ''/'' @ name = before @ map (\<lambda>c. if c = CHR 0x5C then CHR ''/'' else c) targetFolderPath @ after)
            \<and> (\<exists>rest. name = ''index.'' @ rest)))"
proof -
  have general: "sf \<in> set (indexFiles t allSourceFiles) \<longleftrightarrow>
      sf \<in> set allSourceFiles
      \<and> (\<exists>before after. map (\<lambda>c. if c = CHR 0x5C then CHR ''/'' else c) (filePath sf) = before @ map (\<lambda>c. if c = CHR 0x5C then CHR ''/'' else c) t @ after)
      \<and> (\<exists>rest. path_basename (map (\<lambda>c. if c = CHR 0x5C then CHR ''/'' else c) (filePath sf)) = ''index.'' @ rest)" for t
    by (simp add: indexFiles_def isIndexFile_def Let_def str_includes_iff startsWith_iff
        normalizePath_def)
  have src: "map (\<lambda>c. if c = CHR 0x5C then CHR ''/'' else c) ''src'' = ''src''" by simp
  have last_name: "path_basename (map (\<lambda>c. if c = CHR 0x5C then CHR ''/'' else c) (filePath sf)) = name"
    if "map (\<lambda>c. if c = CHR 0x5C then CHR ''/'' else c) (filePath sf) = dir @ ''/'' @ name" "name \<noteq> []" "CHR ''/'' \<notin> set name" for dir name
    using path_basename_append[OF that(2,3), of dir] that(1) by simp
  show ?thesis
  proof (intro conjI allI impI)
    show "sf \<in> set (indexFiles targetFolderPath allSourceFiles) \<longleftrightarrow>
      sf \<in> set allSourceFiles
      \<and> (\<exists>before after. map (\<lambda>c. if c = CHR 0x5C then CHR ''/'' else c) (filePath sf) = before @ map (\<lambda>c. if c = CHR 0x5C then CHR ''/'' else c) targetFolderPath @ after)
      \<and> (\<exists>rest. path_basename (map (\<lambda>c. if c = CHR 0x5C then CHR ''/'' else c) (filePath sf)) = ''index.'' @ rest)"
      by (rule general)
  next
    show "sf \<in> set (indexFiles ''src'' allSourceFiles) \<longleftrightarrow>
      sf \<in> set allSourceFiles
      \<and> (\<exists>before after. map (\<lambda>c. if c = CHR 0x5C then CHR ''/'' else c) (filePath sf) = before @ ''src'' @ after)
      \<and> (\<exists>rest. path_basename (map (\<lambda>c. if c = CHR 0x5C then CHR ''/'' else c) (filePath sf)) = ''index.'' @ rest)"
      using general[of "''src''"] unfolding src .
  next
    fix dir name
    assume a: "map (\<lambda>c. if c = CHR 0x5C then CHR ''/'' else c) (filePath sf) = dir @ ''/'' @ name \<and> name \<noteq> [] \<and> CHR ''/'' \<notin> set name"
    then have b: "path_basename (map (\<lambda>c. if c = CHR 0x5C then CHR ''/'' else c) (filePath sf)) = name"
      using last_name by blast
    show "sf \<in> set (indexFiles targetFolderPath allSourceFiles) \<longleftrightarrow>
            sf \<in> set allSourceFiles
            \<and> (\<exists>before after. dir @ ''/'' @ name = before @ map (\<lambda>c. if c = CHR 0x5C then CHR ''/'' else c) targetFolderPath @ after)
            \<and> (\<exists>rest. name = ''index.'' @ rest)"
      using general[of targetFolderPath] a unfolding b by simp
  qed
qed

theorem C3_selection_witness:
  "\<lparr>filePath = ''/proj/src/components/Button/index.tsx'', importDeclarations = []\<rparr>
     \<in> set (indexFiles (''src'' @ [CHR 0x5C] @ ''components'')
         [\<lparr>filePath = ''/proj/src/components/Button/index.tsx'', importDeclarations = []\<rparr>])
   \<and> \<lparr>filePath = ''C:'' @ [CHR 0x5C] @ ''proj'' @ [CHR 0x5C] @ ''src'' @ [CHR 0x5C] @ ''index.ts'',
       importDeclarations = []\<rparr>
     \<in> set (indexFiles ''proj/src''
         [\<lparr>filePath = ''C:'' @ [CHR 0x5C] @ ''proj'' @ [CHR 0x5C] @ ''src'' @ [CHR 0x5C] @ ''index.ts'',
           importDeclarations = []\<rparr>])
   \<and> \<lparr>filePath = ''/home/mysrcfiles/lib/index.ts'', importDeclarations = []\<rparr>
     \<in> set (indexFiles ''src''
         [\<lparr>filePath = ''/proj/src/App.tsx'', importDeclarations = []\<rparr>,
          \<lparr>filePath = ''/home/mysrcfiles/lib/index.ts'', importDeclarations = []\<rparr>])
   \<and> \<lparr>filePath = ''/proj/src/App.tsx'', importDeclarations = []\<rparr>
     \<notin> set (indexFiles ''src''
         [\<lparr>filePath = ''/proj/src/App.tsx'', importDeclarations = []\<rparr>,
          \<lparr>filePath = ''/home/mysrcfiles/lib/index.ts'', importDeclarations = []\<rparr>])"
proof -
  let ?a = "\<lparr>filePath = ''/proj/src/App.tsx'', importDeclarations = []\<rparr>"
  let ?b = "\<lparr>filePath = ''/home/mysrcfiles/lib/index.ts'', importDeclarations = []\<rparr>"
  let ?c = "\<lparr>filePath = ''/proj/src/components/Button/index.tsx'', importDeclarations = []\<rparr>"
  let ?d = "\<lparr>filePath = ''C:'' @ [CHR 0x5C] @ ''proj'' @ [CHR 0x5C] @ ''src'' @ [CHR 0x5C] @ ''index.ts'',
       importDeclarations = []\<rparr>"
  let ?t = "''src'' @ [CHR 0x5C] @ ''components''"
  have "map (\<lambda>c. if c = CHR 0x5C then CHR ''/'' else c) (filePath ?c) = ''/proj/'' @ map (\<lambda>c. if c = CHR 0x5C then CHR ''/'' else c) ?t @ ''/Button/index.tsx''"
    by simp
  then have c1: "\<exists>before after. map (\<lambda>c. if c = CHR 0x5C then CHR ''/'' else c) (filePath ?c) = before @ map (\<lambda>c. if c = CHR 0x5C then CHR ''/'' else c) ?t @ after"
    by blast
  have "path_basename (map (\<lambda>c. if c = CHR 0x5C then CHR ''/'' else c) (filePath ?c)) = ''index.'' @ ''tsx''"
    by (simp add: path_basename_def)
  then have c2: "\<exists>rest. path_basename (map (\<lambda>c. if c = CHR 0x5C then CHR ''/'' else c) (filePath ?c)) = ''index.'' @ rest"
    by blast
  have c: "?c \<in> set (indexFiles ?t [?c])"
    using c1 c2 conjunct1[OF C3_selection[of ?c ?t "[?c]"]] by simp
  have "map (\<lambda>c. if c = CHR 0x5C then CHR ''/'' else c) (filePath ?d) = ''C:/'' @ map (\<lambda>c. if c = CHR 0x5C then CHR ''/'' else c) ''proj/src'' @ ''/index.ts''"
    by simp
  then have d1: "\<exists>before after. map (\<lambda>c. if c = CHR 0x5C then CHR ''/'' else c) (filePath ?d) = before @ map (\<lambda>c. if c = CHR 0x5C then CHR ''/'' else c) ''proj/src'' @ after"
    by blast
  have "path_basename (map (\<lambda>c. if c = CHR 0x5C then CHR ''/'' else c) (filePath ?d)) = ''index.'' @ ''ts''"
    by (simp add: path_basename_def)
  then have d2: "\<exists>rest. path_basename (map (\<lambda>c. if c = CHR 0x5C then CHR ''/'' else c) (filePath ?d)) = ''index.'' @ rest"
    by blast
  have d: "?d \<in> set (indexFiles ''proj/src'' [?d])"
    using d1 d2 conjunct1[OF C3_selection[of ?d "''proj/src''" "[?d]"]] by simp
  have "map (\<lambda>c. if c = CHR 0x5C then CHR ''/'' else c) (filePath ?b) = ''/home/my'' @ ''src'' @ ''files/lib/index.ts''"
    by simp
  then have b1: "\<exists>before after. map (\<lambda>c. if c = CHR 0x5C then CHR ''/'' else c) (filePath ?b) = before @ ''src'' @ after"
    by blast
  have "path_basename (map (\<lambda>c. if c = CHR 0x5C then CHR ''/'' else c) (filePath ?b)) = ''index.'' @ ''ts''"
    by (simp add: path_basename_def)
  then have b2: "\<exists>rest. path_basename (map (\<lambda>c. if c = CHR 0x5C then CHR ''/'' else c) (filePath ?b)) = ''index.'' @ rest"
    by blast
  have b: "?b \<in> set (indexFiles ''src'' [?a, ?b])"
    using b1 b2 conjunct1[OF conjunct2[OF C3_selection[of ?b _ "[?a, ?b]"]]] by simp
  have "path_basename (map (\<lambda>c. if c = CHR 0x5C then CHR ''/'' else c) (filePath ?a)) = ''App.tsx''"
    by (simp add: path_basename_def)
  then have "\<not> (\<exists>rest. path_basename (map (\<lambda>c. if c = CHR 0x5C then CHR ''/'' else c) (filePath ?a)) = ''index.'' @ rest)"
    by simp
  then have a: "?a \<notin> set (indexFiles ''src'' [?a, ?b])"
    using conjunct1[OF conjunct2[OF C3_selection[of ?a _ "[?a, ?b]"]]] by blast
  show ?thesis
    by (intro conjI c d b a)
qed

section \<open>Step 2: the fallback\<close>

text \<open>
  Claim C9. A file whose base name starts with \<open>index.\<close> and matches neither
  \<open>/^index(\..+\.)([^.]+)$/\<close> nor \<open>/^index(\.[^.]+)$/\<close> gets the default extension
  \<open>.tsx\<close>: its new base name is the name of its parent directory followed by \<open>.tsx\<close>.
  The base name \<open>index.\<close> is such a name.
\<close>

theorem C9_fallback:
  assumes "startsWith (path_basename p) ''index.''"
    and "patternMatch (path_basename p) = None"
    and "simpleMatch (path_basename p) = None"
  shows "extension (path_basename p) = ''.tsx'' \<and> newBaseName p = parentName p @ ''.tsx''"
  using assms by (simp add: extension_def newBaseName_def)

theorem C9_fallback_witness:
  "startsWith (path_basename ''/proj/src/Button/index.'') ''index.''
   \<and> patternMatch (path_basename ''/proj/src/Button/index.'') = None
   \<and> simpleMatch (path_basename ''/proj/src/Button/index.'') = None
   \<and> extension (path_basename ''/proj/src/Button/index.'') = ''.tsx''
   \<and> newBaseName ''/proj/src/Button/index.'' = ''Button.tsx''"
proof -
  have b: "path_basename ''/proj/src/Button/index.'' = ''index.''"
    by (simp add: path_basename_def)
  have d: "parentName ''/proj/src/Button/index.'' = ''Button''"
    by (simp add: parentName_def path_dirname_def path_basename_def)
  have h: "startsWith (path_basename ''/proj/src/Button/index.'') ''index.''"
    "patternMatch (path_basename ''/proj/src/Button/index.'') = None"
    "simpleMatch (path_basename ''/proj/src/Button/index.'') = None"
    unfolding b by (simp_all add: startsWith_def patternMatch_def simpleMatch_def)
  show ?thesis using h C9_fallback[OF h] d by simp
qed

section \<open>Step 4: rewriting a specifier twice\<close>

lemma after_last_char:
  assumes "c \<notin> set e"
  shows "rev (takeWhile (\<lambda>x. x \<noteq> c) (rev (xs @ c # e))) = e"
proof -
  have "takeWhile (\<lambda>x. x \<noteq> c) (rev e @ c # rev xs) = rev e"
    using assms by (subst takeWhile_append2) auto
  then show ?thesis by simp
qed

lemma path_basename_no_slash: "CHR ''/'' \<notin> set (path_basename p)"
  by (auto simp: path_basename_def dest: set_takeWhileD)

lemma parentName_no_slash: "CHR ''/'' \<notin> set (parentName p)"
  by (simp add: parentName_def path_basename_no_slash)

lemma endsWith_index_iff:
  assumes "CHR ''/'' \<notin> set P"
  shows "endsWith (s @ ''/'' @ P) ''/index'' \<longleftrightarrow> P = ''index''"
proof
  assume "endsWith (s @ ''/'' @ P) ''/index''"
  then obtain t where t: "s @ CHR ''/'' # P = t @ CHR ''/'' # ''index''"
    by (auto simp: endsWith_iff)
  have "rev (takeWhile (\<lambda>x. x \<noteq> CHR ''/'') (rev (s @ CHR ''/'' # P))) = P"
    by (rule after_last_char[OF assms])
  moreover have "rev (takeWhile (\<lambda>x. x \<noteq> CHR ''/'') (rev (t @ CHR ''/'' # ''index''))) = ''index''"
    by (rule after_last_char) simp
  ultimately show "P = ''index''" using t by simp
next
  assume "P = ''index''"
  then show "endsWith (s @ ''/'' @ P) ''/index''" by (auto simp: endsWith_iff)
qed

text \<open>
  Claim C10. The rewrite of a specifier is not idempotent. For a specifier \<open>s\<close> that does
  not end in \<open>/index\<close> and a parent directory name other than \<open>index\<close>, one application
  gives \<open>s/parentName\<close>, a second one gives \<open>s/parentName/parentName\<close>, and the two results
  differ.
\<close>

theorem C10_rewrite_twice:
  assumes "\<not> endsWith s ''/index''" and "parentName p \<noteq> ''index''"
  shows "rewriteSpecifier (parentName p) s = s @ ''/'' @ parentName p
       \<and> rewriteSpecifier (parentName p) (rewriteSpecifier (parentName p) s)
           = s @ ''/'' @ parentName p @ ''/'' @ parentName p
       \<and> rewriteSpecifier (parentName p) (rewriteSpecifier (parentName p) s)
           \<noteq> rewriteSpecifier (parentName p) s"
proof -
  have once: "rewriteSpecifier (parentName p) s = s @ ''/'' @ parentName p"
    using assms(1) by (simp add: rewriteSpecifier_def)
  have "\<not> endsWith (s @ ''/'' @ parentName p) ''/index''"
    using endsWith_index_iff[OF parentName_no_slash] assms(2) by blast
  then have twice: "rewriteSpecifier (parentName p) (s @ ''/'' @ parentName p)
      = (s @ ''/'' @ parentName p) @ ''/'' @ parentName p"
    by (simp add: rewriteSpecifier_def)
  show ?thesis using once twice by simp
qed

theorem C10_rewrite_twice_witness:
  "\<not> endsWith ''./components/Button'' ''/index''
   \<and> parentName ''/proj/src/components/Button/index.tsx'' = ''Button''
   \<and> rewriteSpecifier ''Button'' ''./components/Button'' = ''./components/Button/Button''
   \<and> rewriteSpecifier ''Button'' (rewriteSpecifier ''Button'' ''./components/Button'')
       = ''./components/Button/Button/Button''"
proof -
  have e: "\<not> endsWith ''./components/Button'' ''/index''"
    by (simp add: endsWith_def suffix_to_prefix)
  have d: "parentName ''/proj/src/components/Button/index.tsx'' = ''Button''"
    by (simp add: parentName_def path_dirname_def path_basename_def)
  then have n: "parentName ''/proj/src/components/Button/index.tsx'' \<noteq> ''index''" by simp
  note r = C10_rewrite_twice[OF e n, unfolded d]
  have r1: "rewriteSpecifier ''Button'' ''./components/Button'' = ''./components/Button/Button''"
    using conjunct1[OF r] by simp
  have r2: "rewriteSpecifier ''Button'' (rewriteSpecifier ''Button'' ''./components/Button'')
       = ''./components/Button/Button/Button''"
    using conjunct1[OF conjunct2[OF r]] by simp
  show ?thesis
    by (intro conjI e d r1 r2)
qed

subsection \<open>The same in \<open>part_000\<close>\<close>

lemma not_endsWith_parent_index:
  assumes "CHR ''/'' \<notin> set P" and "P \<noteq> ''index''" and "endsWith t (''/'' @ P)"
  shows "\<not> endsWith t (''/'' @ P @ ''/index'')"
proof
  assume "endsWith t (''/'' @ P @ ''/index'')"
  then obtain b where b: "t = (b @ CHR ''/'' # P) @ CHR ''/'' # ''index''"
    by (auto simp: endsWith_iff)
  from assms(3) obtain a where a: "t = a @ CHR ''/'' # P"
    by (auto simp: endsWith_iff)
  have "rev (takeWhile (\<lambda>x. x \<noteq> CHR ''/'') (rev t)) = P"
    unfolding a by (rule after_last_char[OF assms(1)])
  moreover have "rev (takeWhile (\<lambda>x. x \<noteq> CHR ''/'') (rev t)) = ''index''"
    unfolding b by (rule after_last_char) simp
  ultimately have "P = ''index''" by simp
  with assms(2) show False by simp
qed

text \<open>
  The rewrite of \<open>part_000\<close> behaves the same way on the specifiers it touches: one that
  ends with \<open>/parentName\<close> is extended once by each application.
\<close>

lemma updateImportText_twice:
  assumes "endsWith s (''/'' @ parentName p)" and "parentName p \<noteq> ''index''"
  shows "updateImportText (parentName p) s = s @ ''/'' @ parentName p"
    and "updateImportText (parentName p) (updateImportText (parentName p) s)
           = s @ ''/'' @ parentName p @ ''/'' @ parentName p"
proof -
  have n1: "\<not> endsWith s (''/'' @ parentName p @ ''/index'')"
    using assms by (intro not_endsWith_parent_index parentName_no_slash)
  then show once: "updateImportText (parentName p) s = s @ ''/'' @ parentName p"
    using assms(1) by (simp add: updateImportText_def)
  have e2: "endsWith (s @ ''/'' @ parentName p) (''/'' @ parentName p)"
    by (auto simp: endsWith_iff)
  then have n2: "\<not> endsWith (s @ ''/'' @ parentName p) (''/'' @ parentName p @ ''/index'')"
    using assms(2) by (intro not_endsWith_parent_index parentName_no_slash)
  have "updateImportText (parentName p) (s @ ''/'' @ parentName p)
      = (s @ ''/'' @ parentName p) @ ''/'' @ parentName p"
    using e2 n2 unfolding updateImportText_def by (simp only: if_True if_False)
  then show "updateImportText (parentName p) (updateImportText (parentName p) s)
           = s @ ''/'' @ parentName p @ ''/'' @ parentName p"
    by (simp add: once)
qed

text \<open>
  On an import that \<open>part_000\<close> touches, it writes the specifier that
  \<open>src/rename-index-files.ts\<close> writes for an import that resolves to the file.
\<close>

lemma updateImportText_eq_rewriteSpecifier:
  assumes "parentName p \<noteq> ''index''"
    and "endsWith spec (''/'' @ parentName p @ ''/index'') \<or> endsWith spec (''/'' @ parentName p)"
  shows "updateImportText (parentName p) spec = rewriteSpecifier (parentName p) spec"
proof (cases "endsWith spec (''/'' @ parentName p @ ''/index'')")
  case True
  then have "endsWith spec ''/index''" by (auto simp: endsWith_iff)
  with True show ?thesis by (simp add: updateImportText_def rewriteSpecifier_def)
next
  case False
  with assms(2) have e: "endsWith spec (''/'' @ parentName p)" by simp
  then obtain a where "spec = a @ ''/'' @ parentName p" by (auto simp: endsWith_iff)
  then have "\<not> endsWith spec ''/index''"
    using endsWith_index_iff[OF parentName_no_slash, of a p] assms(1) by simp
  with False e show ?thesis by (simp add: updateImportText_def rewriteSpecifier_def)
qed

section \<open>The checks before any work\<close>

text \<open>
  Claim C8. When the configuration path or the target folder path does not exist on disk,
  the run stops before any work: it prints the error message of the missing path (the
  configuration is checked first), exits with status 1, and leaves the disk as it was. The
  outcome is the same whatever renaming, loading, resolving and saving would do, so none of
  them takes part: no file is renamed and no specifier is edited.
\<close>

theorem C8_preconditions:
  assumes "\<not> existsSync h fs (tsConfigPathOf args) \<or> \<not> existsSync h fs (targetFolderPathOf args)"
  shows "exitCode (main h v fs args) = 1
       \<and> errors (main h v fs args) =
           [if \<not> existsSync h fs (tsConfigPathOf args)
            then TsconfigNotFound (tsConfigPathOf args)
            else TargetFolderNotFound (targetFolderPathOf args)]
       \<and> disk (main h v fs args) = fs
       \<and> main (h\<lparr>renameSync := r, loadProject := l, resolveImport := q, saveSync := s\<rparr>) v fs args
           = main h v fs args"
  using assms by (auto simp: main_def Let_def)

theorem C8_preconditions_witness:
  "\<not> existsSync exampleHost [''src''] (tsConfigPathOf [])
   \<and> exitCode (main exampleHost ByResolution [''src''] []) = 1
   \<and> errors (main exampleHost ByResolution [''src''] []) = [TsconfigNotFound ''tsconfig.json'']
   \<and> disk (main exampleHost ByResolution [''src''] []) = [''src'']
   \<and> \<not> existsSync exampleHost exampleDisk (targetFolderPathOf [''lib''])
   \<and> exitCode (main exampleHost BySpecifierText exampleDisk [''lib'']) = 1
   \<and> errors (main exampleHost BySpecifierText exampleDisk [''lib''])
       = [TargetFolderNotFound ''lib'']
   \<and> disk (main exampleHost BySpecifierText exampleDisk [''lib'']) = exampleDisk"
proof -
  have t: "\<not> existsSync exampleHost [''src''] (tsConfigPathOf [])"
    by (simp add: exampleHost_def tsConfigPathOf_def)
  have u: "existsSync exampleHost exampleDisk (tsConfigPathOf [''lib''])"
    "\<not> existsSync exampleHost exampleDisk (targetFolderPathOf [''lib''])"
    by (simp_all add: exampleHost_def exampleDisk_def tsConfigPathOf_def targetFolderPathOf_def)
  note r1 = C8_preconditions[of exampleHost "[''src'']" "[]" ByResolution, OF disjI1[OF t]]
  note r2 = C8_preconditions[of exampleHost exampleDisk "[''lib'']" BySpecifierText,
      OF disjI2[OF u(2)]]
  have e1: "errors (main exampleHost ByResolution [''src''] []) = [TsconfigNotFound ''tsconfig.json'']"
    using conjunct1[OF conjunct2[OF r1]] t by (simp add: tsConfigPathOf_def)
  have e2: "errors (main exampleHost BySpecifierText exampleDisk [''lib''])
       = [TargetFolderNotFound ''lib'']"
    using conjunct1[OF conjunct2[OF r2]] u by (simp add: targetFolderPathOf_def)
  show ?thesis
    by (intro conjI t u(2) conjunct1[OF r1] e1 conjunct1[OF conjunct2[OF conjunct2[OF r1]]]
        conjunct1[OF r2] e2 conjunct1[OF conjunct2[OF conjunct2[OF r2]]])
qed

section \<open>Step 4 runs for standard index files only\<close>

lemma pattern_not_standard:
  assumes "patternMatch f \<noteq> None"
  shows "\<not> isStandardIndexFile f"
proof
  assume "isStandardIndexFile f"
  then have "f \<in> {''index.ts'', ''index.tsx'', ''index.js'', ''index.jsx''}"
    by (simp add: isStandardIndexFile_iff)
  then have "patternMatch f = None"
    by (auto simp: patternMatch_def)
  with assms show False by simp
qed

text \<open>
  Claim C5. The imports of the project are rewritten exactly when the original base name
  of the file is \<open>index.ts\<close>, \<open>index.tsx\<close>, \<open>index.js\<close> or \<open>index.jsx\<close>. For a pattern index
  file, such as \<open>index.test.ts\<close>, the file is renamed (to the name of its parent directory
  followed by everything after \<open>index\<close>), and the project is left as it was: no specifier
  of any file is changed. Both files of the repository make this test the same way.
\<close>

theorem C5_standard_files_only:
  "(isStandardIndexFile fileName \<longleftrightarrow>
      fileName \<in> {''index.ts'', ''index.tsx'', ''index.js'', ''index.jsx''})
   \<and> renameIndexFile h v (fs, project) file =
       (case renameSync h fs (filePath file) (newFilePath (filePath file)) of
          Inl e \<Rightarrow> Inl (e, fs)
        | Inr fs' \<Rightarrow>
            Inr (fs',
                 if path_basename (filePath file)
                      \<in> {''index.ts'', ''index.tsx'', ''index.js'', ''index.jsx''}
                 then (case v of
                         ByResolution \<Rightarrow> updateImports (resolveImport h fs') (filePath file) project
                       | BySpecifierText \<Rightarrow> updateImportsText (filePath file) project)
                 else project))
   \<and> (patternMatch (path_basename (filePath file)) \<noteq> None \<longrightarrow>
        newBaseName (filePath file)
          = parentName (filePath file) @ drop 5 (path_basename (filePath file))
        \<and> renameIndexFile h v (fs, project) file =
            (case renameSync h fs (filePath file) (newFilePath (filePath file)) of
               Inl e \<Rightarrow> Inl (e, fs)
             | Inr fs' \<Rightarrow> Inr (fs', project)))"
proof (intro conjI impI)
  show "isStandardIndexFile fileName \<longleftrightarrow>
      fileName \<in> {''index.ts'', ''index.tsx'', ''index.js'', ''index.jsx''}"
    by (rule isStandardIndexFile_iff)
next
  show "renameIndexFile h v (fs, project) file =
       (case renameSync h fs (filePath file) (newFilePath (filePath file)) of
          Inl e \<Rightarrow> Inl (e, fs)
        | Inr fs' \<Rightarrow>
            Inr (fs',
                 if path_basename (filePath file)
                      \<in> {''index.ts'', ''index.tsx'', ''index.js'', ''index.jsx''}
                 then (case v of
                         ByResolution \<Rightarrow> updateImports (resolveImport h fs') (filePath file) project
                       | BySpecifierText \<Rightarrow> updateImportsText (filePath file) project)
                 else project))"
    unfolding renameIndexFile_def Let_def isStandardIndexFile_iff fst_conv snd_conv
    by (rule refl)
next
  assume p: "patternMatch (path_basename (filePath file)) \<noteq> None"
  then show "newBaseName (filePath file)
          = parentName (filePath file) @ drop 5 (path_basename (filePath file))"
    using extension_matched[of "path_basename (filePath file)"] by (simp add: newBaseName_def)
  show "renameIndexFile h v (fs, project) file =
            (case renameSync h fs (filePath file) (newFilePath (filePath file)) of
               Inl e \<Rightarrow> Inl (e, fs)
             | Inr fs' \<Rightarrow> Inr (fs', project))"
    using pattern_not_standard[OF p] by (simp add: renameIndexFile_def Let_def split: sum.split)
qed

theorem C5_standard_files_only_witness:
  "patternMatch (path_basename ''/proj/src/components/Button/index.test.ts'') \<noteq> None
   \<and> newBaseName ''/proj/src/components/Button/index.test.ts'' = ''Button.test.ts''
   \<and> renameIndexFile exampleHost ByResolution
        (''/proj/src/components/Button/index.test.ts'' # exampleDisk, exampleProject)
        \<lparr>filePath = ''/proj/src/components/Button/index.test.ts'', importDeclarations = []\<rparr>
      = Inr (''/proj/src/components/Button/Button.test.ts'' # exampleDisk, exampleProject)"
proof -
  let ?p = "''/proj/src/components/Button/index.test.ts''"
  let ?file = "\<lparr>filePath = ?p, importDeclarations = []\<rparr>"
  have b: "path_basename ?p = ''index.test.ts''"
    by (simp add: path_basename_def)
  have d: "parentName ?p = ''Button''"
    by (simp add: parentName_def path_dirname_def path_basename_def)
  have m: "patternMatch (path_basename (filePath ?file)) \<noteq> None"
    by (simp add: b patternMatch_def startsWith_def no_line_terminator)
  note r = C5_standard_files_only[of _ exampleHost ByResolution "?p # exampleDisk" exampleProject ?file]
  note r3 = mp[OF conjunct2[OF conjunct2[OF r]] m]
  have n: "newBaseName ?p = ''Button.test.ts''"
    using conjunct1[OF r3] by (simp add: b d)
  have f: "newFilePath ?p = ''/proj/src/components/Button/Button.test.ts''"
    unfolding newFilePath_def n
    by (simp add: path_dirname_def path_join_def path_normalize_def normalizeString_def
        normalizeSegment_def Let_def)
  have "renameIndexFile exampleHost ByResolution (?p # exampleDisk, exampleProject) ?file
      = Inr (''/proj/src/components/Button/Button.test.ts'' # exampleDisk, exampleProject)"
    using conjunct2[OF r3] by (simp add: f exampleHost_def exampleDisk_def)
  then show ?thesis using m n by simp
qed

section \<open>Step 4: what the rewrite does to each import\<close>

lemma updateImports_length [simp]: "length (updateImports resolve path project) = length project"
  by (simp add: updateImports_def)

lemma updateImports_nth:
  assumes "i < length project"
  shows "filePath (updateImports resolve path project ! i) = filePath (project ! i)"
    and "importDeclarations (updateImports resolve path project ! i) =
          (if isReferencing resolve path (project ! i)
           then map (updateImport resolve path (filePath (project ! i)))
                  (importDeclarations (project ! i))
           else importDeclarations (project ! i))"
  using assms by (simp_all add: updateImports_def)

lemma isReferencingI:
  assumes "j < length (importDeclarations sf)"
    and "resolve (filePath sf) (importDeclarations sf ! j) = Some path"
  shows "isReferencing resolve path sf"
  using assms by (auto simp: isReferencing_def list_ex_iff)

lemma updateImport_resolved:
  "resolve sfPath spec = Some path \<Longrightarrow>
     updateImport resolve path sfPath spec = rewriteSpecifier (parentName path) spec"
  by (simp add: updateImport_def)

lemma updateImport_other:
  "path \<noteq> ''null'' \<Longrightarrow> resolve sfPath spec \<noteq> Some path \<Longrightarrow>
     updateImport resolve path sfPath spec = spec"
  by (auto simp: updateImport_def split: option.splits)

lemma rewriteSpecifier_index: "rewriteSpecifier P (base @ ''/index'') = base @ ''/'' @ P"
  by (simp add: rewriteSpecifier_def endsWith_iff substring0_def)

lemma rewriteSpecifier_other:
  "\<not> endsWith spec ''/index'' \<Longrightarrow> rewriteSpecifier P spec = spec @ ''/'' @ P"
  by (simp add: rewriteSpecifier_def)

lemma renameIndexFile_ByResolution_InrD:
  assumes "renameIndexFile h ByResolution (fs, project) file = Inr (fs', project')"
  shows "renameSync h fs (filePath file) (newFilePath (filePath file)) = Inr fs'"
    and "project' = (if isStandardIndexFile (path_basename (filePath file))
                     then updateImports (resolveImport h fs') (filePath file) project
                     else project)"
  using assms by (auto simp: renameIndexFile_def Let_def split: sum.splits)

subsection \<open>The small project, one step\<close>

lemma example_names:
  "path_basename ''/proj/src/components/Button/index.tsx'' = ''index.tsx''"
  "parentName ''/proj/src/components/Button/index.tsx'' = ''Button''"
  "newFilePath ''/proj/src/components/Button/index.tsx'' = ''/proj/src/components/Button/Button.tsx''"
proof -
  show b: "path_basename ''/proj/src/components/Button/index.tsx'' = ''index.tsx''"
    by (simp add: path_basename_def)
  have d: "path_dirname ''/proj/src/components/Button/index.tsx'' = ''/proj/src/components/Button''"
    by (simp add: path_dirname_def)
  show p: "parentName ''/proj/src/components/Button/index.tsx'' = ''Button''"
    by (simp add: parentName_def d path_basename_def)
  have "extension ''index.tsx'' = ''.tsx''"
    by (simp add: extension_def patternMatch_def simpleMatch_def startsWith_def)
  then have n: "newBaseName ''/proj/src/components/Button/index.tsx'' = ''Button.tsx''"
    by (simp add: newBaseName_def b p)
  show "newFilePath ''/proj/src/components/Button/index.tsx'' = ''/proj/src/components/Button/Button.tsx''"
    unfolding newFilePath_def n d
    by (simp add: path_join_def path_normalize_def normalizeString_def normalizeSegment_def)
qed

lemma example_standard: "isStandardIndexFile (path_basename (filePath (exampleProject ! 0)))"
  by (simp add: exampleProject_def example_names(1) isStandardIndexFile_iff)

lemma example_renameSync:
  "renameSync exampleHost exampleDisk ''/proj/src/components/Button/index.tsx''
     ''/proj/src/components/Button/Button.tsx''
   = Inr [''/proj/src/components/Button/Button.tsx'', ''tsconfig.json'', ''src'',
          ''/proj/src/other/Button.ts'', ''/proj/src/App.tsx'']"
  by (simp add: exampleHost_def exampleDisk_def)

lemma example_ByResolution:
  "renameIndexFile exampleHost ByResolution (exampleDisk, exampleProject) (exampleProject ! 0)
   = Inr ([''/proj/src/components/Button/Button.tsx'', ''tsconfig.json'', ''src'',
           ''/proj/src/other/Button.ts'', ''/proj/src/App.tsx''],
          [\<lparr>filePath = ''/proj/src/components/Button/index.tsx'', importDeclarations = [''react'']\<rparr>,
           \<lparr>filePath = ''/proj/src/other/Button.ts'', importDeclarations = []\<rparr>,
           \<lparr>filePath = ''/proj/src/App.tsx'',
            importDeclarations =
              [''./components/Button/Button'', ''./components/Button/Button'',
               ''./other/Button'', ''react'']\<rparr>])"
proof -
  have f: "filePath (exampleProject ! 0) = ''/proj/src/components/Button/index.tsx''"
    by (simp add: exampleProject_def)
  have r: "resolveImport exampleHost fs = exampleResolve" for fs
    by (simp add: exampleHost_def)
  have u: "updateImports exampleResolve ''/proj/src/components/Button/index.tsx'' exampleProject
      = [\<lparr>filePath = ''/proj/src/components/Button/index.tsx'', importDeclarations = [''react'']\<rparr>,
           \<lparr>filePath = ''/proj/src/other/Button.ts'', importDeclarations = []\<rparr>,
           \<lparr>filePath = ''/proj/src/App.tsx'',
            importDeclarations =
              [''./components/Button/Button'', ''./components/Button/Button'',
               ''./other/Button'', ''react'']\<rparr>]"
    by (simp add: updateImports_def exampleProject_def isReferencing_def exampleResolve_def
        updateImport_def example_names(2) rewriteSpecifier_def endsWith_def suffix_to_prefix
        substring0_def)
  show ?thesis
    using example_standard
    by (simp add: renameIndexFile_def f example_names example_renameSync r u)
qed

lemma example_BySpecifierText:
  "renameIndexFile exampleHost BySpecifierText (exampleDisk, exampleProject) (exampleProject ! 0)
   = Inr ([''/proj/src/components/Button/Button.tsx'', ''tsconfig.json'', ''src'',
           ''/proj/src/other/Button.ts'', ''/proj/src/App.tsx''],
          [\<lparr>filePath = ''/proj/src/components/Button/index.tsx'', importDeclarations = [''react'']\<rparr>,
           \<lparr>filePath = ''/proj/src/other/Button.ts'', importDeclarations = []\<rparr>,
           \<lparr>filePath = ''/proj/src/App.tsx'',
            importDeclarations =
              [''./components/Button/Button'', ''./components/Button/Button'',
               ''./other/Button/Button'', ''react'']\<rparr>])"
proof -
  have f: "filePath (exampleProject ! 0) = ''/proj/src/components/Button/index.tsx''"
    by (simp add: exampleProject_def)
  have u: "updateImportsText ''/proj/src/components/Button/index.tsx'' exampleProject
      = [\<lparr>filePath = ''/proj/src/components/Button/index.tsx'', importDeclarations = [''react'']\<rparr>,
           \<lparr>filePath = ''/proj/src/other/Button.ts'', importDeclarations = []\<rparr>,
           \<lparr>filePath = ''/proj/src/App.tsx'',
            importDeclarations =
              [''./components/Button/Button'', ''./components/Button/Button'',
               ''./other/Button/Button'', ''react'']\<rparr>]"
    by (simp add: updateImportsText_def exampleProject_def updateImportText_def
        example_names(2) endsWith_def suffix_to_prefix substring0_def)
  show ?thesis
    using example_standard
    by (simp add: renameIndexFile_def f example_names example_renameSync u)
qed

text \<open>
  Claim C1. While a standard index file is processed, an import declaration that resolves
  to it is rewritten as follows. A specifier that ends with \<open>/index\<close> loses these six
  characters and gets \<open>/\<close> and the name of the parent directory appended; any other
  specifier gets \<open>/\<close> and the name of the parent directory appended. So
  \<open>./components/Button/index\<close> and \<open>./components/Button\<close> both become
  \<open>./components/Button/Button\<close>.
\<close>

theorem C1_rewrite:
  assumes "isStandardIndexFile (path_basename (filePath file))"
    and "renameIndexFile h ByResolution (fs, project) file = Inr (fs', project')"
    and "i < length project"
    and "j < length (importDeclarations (project ! i))"
    and "resolveImport h fs' (filePath (project ! i)) (importDeclarations (project ! i) ! j)
           = Some (filePath file)"
  shows "(\<forall>base. importDeclarations (project ! i) ! j = base @ ''/index'' \<longrightarrow>
            importDeclarations (project' ! i) ! j = base @ ''/'' @ parentName (filePath file))
       \<and> (\<not> endsWith (importDeclarations (project ! i) ! j) ''/index'' \<longrightarrow>
            importDeclarations (project' ! i) ! j
              = importDeclarations (project ! i) ! j @ ''/'' @ parentName (filePath file))"
proof -
  let ?spec = "importDeclarations (project ! i) ! j"
  have p: "project' = updateImports (resolveImport h fs') (filePath file) project"
    using renameIndexFile_ByResolution_InrD(2)[OF assms(2)] assms(1) by simp
  have "isReferencing (resolveImport h fs') (filePath file) (project ! i)"
    using assms(4,5) by (rule isReferencingI)
  then have "importDeclarations (project' ! i) ! j
      = updateImport (resolveImport h fs') (filePath file) (filePath (project ! i)) ?spec"
    using assms(4) by (simp add: p updateImports_nth(2)[OF assms(3)])
  then have "importDeclarations (project' ! i) ! j = rewriteSpecifier (parentName (filePath file)) ?spec"
    using assms(5) by (simp add: updateImport_resolved)
  then show ?thesis
    by (auto simp: rewriteSpecifier_index rewriteSpecifier_other)
qed

theorem C1_rewrite_witness:
  "isStandardIndexFile (path_basename (filePath (exampleProject ! 0)))
   \<and> importDeclarations (exampleProject ! 2) ! 0 = ''./components/Button''
   \<and> importDeclarations (exampleProject ! 2) ! 1 = ''./components/Button/index''
   \<and> (\<exists>fs' project'.
         renameIndexFile exampleHost ByResolution (exampleDisk, exampleProject) (exampleProject ! 0)
           = Inr (fs', project')
         \<and> importDeclarations (project' ! 2) ! 0 = ''./components/Button/Button''
         \<and> importDeclarations (project' ! 2) ! 1 = ''./components/Button/Button'')"
proof -
  obtain fs' project' where run:
    "renameIndexFile exampleHost ByResolution (exampleDisk, exampleProject) (exampleProject ! 0)
       = Inr (fs', project')"
    using example_ByResolution by blast
  have i: "2 < length exampleProject" by (simp add: exampleProject_def)
  have j: "0 < length (importDeclarations (exampleProject ! 2))"
    "1 < length (importDeclarations (exampleProject ! 2))"
    by (simp_all add: exampleProject_def)
  have s: "importDeclarations (exampleProject ! 2) ! 0 = ''./components/Button''"
    "importDeclarations (exampleProject ! 2) ! 1 = ''./components/Button'' @ ''/index''"
    by (simp_all add: exampleProject_def)
  have r: "resolveImport exampleHost fs' (filePath (exampleProject ! 2))
             (importDeclarations (exampleProject ! 2) ! 0) = Some (filePath (exampleProject ! 0))"
    "resolveImport exampleHost fs' (filePath (exampleProject ! 2))
             (importDeclarations (exampleProject ! 2) ! 1) = Some (filePath (exampleProject ! 0))"
    by (simp_all add: exampleProject_def exampleHost_def exampleResolve_def)
  have n: "\<not> endsWith (importDeclarations (exampleProject ! 2) ! 0) ''/index''"
    by (simp add: s endsWith_def suffix_to_prefix)
  have P: "parentName (filePath (exampleProject ! 0)) = ''Button''"
    by (simp add: exampleProject_def example_names(2))
  have "importDeclarations (project' ! 2) ! 0
      = importDeclarations (exampleProject ! 2) ! 0 @ ''/'' @ parentName (filePath (exampleProject ! 0))"
    using C1_rewrite[OF example_standard run i j(1) r(1)] n by blast
  then have a: "importDeclarations (project' ! 2) ! 0 = ''./components/Button/Button''"
    by (simp add: s P)
  have "importDeclarations (project' ! 2) ! 1
      = ''./components/Button'' @ ''/'' @ parentName (filePath (exampleProject ! 0))"
    using C1_rewrite[OF example_standard run i j(2) r(2)] s(2) by blast
  then have b: "importDeclarations (project' ! 2) ! 1 = ''./components/Button/Button''"
    by (simp add: P)
  show ?thesis
    using example_standard s run a b by auto
qed

text \<open>
  Claim C2. While an index file is processed, an import declaration that does not resolve
  to it keeps its specifier, character for character: also when the specifier ends with
  the name of the parent directory and resolves to another file, and when it does not
  resolve at all. Nothing else about the project changes either. The path of a
  loaded file is absolute, so it is not the string \<open>null\<close>, which the source uses for an
  import that does not resolve.
\<close>

theorem C2_frame:
  assumes "filePath file \<noteq> ''null''"
    and "renameIndexFile h ByResolution (fs, project) file = Inr (fs', project')"
    and "i < length project"
    and "j < length (importDeclarations (project ! i))"
    and "resolveImport h fs' (filePath (project ! i)) (importDeclarations (project ! i) ! j)
           \<noteq> Some (filePath file)"
  shows "length project' = length project
       \<and> filePath (project' ! i) = filePath (project ! i)
       \<and> length (importDeclarations (project' ! i)) = length (importDeclarations (project ! i))
       \<and> importDeclarations (project' ! i) ! j = importDeclarations (project ! i) ! j"
proof (cases "isStandardIndexFile (path_basename (filePath file))")
  case False
  then have "project' = project"
    using renameIndexFile_ByResolution_InrD(2)[OF assms(2)] by simp
  then show ?thesis by simp
next
  case True
  then have p: "project' = updateImports (resolveImport h fs') (filePath file) project"
    using renameIndexFile_ByResolution_InrD(2)[OF assms(2)] by simp
  have "updateImport (resolveImport h fs') (filePath file) (filePath (project ! i))
          (importDeclarations (project ! i) ! j) = importDeclarations (project ! i) ! j"
    using assms(1,5) by (rule updateImport_other)
  then show ?thesis
    using assms(4) by (simp add: p updateImports_nth[OF assms(3)])
qed

theorem C2_frame_witness:
  "filePath (exampleProject ! 0) \<noteq> ''null''
   \<and> importDeclarations (exampleProject ! 2) ! 2 = ''./other/Button''
   \<and> exampleResolve (filePath (exampleProject ! 2)) ''./other/Button''
       = Some ''/proj/src/other/Button.ts''
   \<and> importDeclarations (exampleProject ! 2) ! 3 = ''react''
   \<and> exampleResolve (filePath (exampleProject ! 2)) ''react'' = None
   \<and> (\<exists>fs' project'.
         renameIndexFile exampleHost ByResolution (exampleDisk, exampleProject) (exampleProject ! 0)
           = Inr (fs', project')
         \<and> importDeclarations (project' ! 2) ! 2 = ''./other/Button''
         \<and> importDeclarations (project' ! 2) ! 3 = ''react'')"
proof -
  obtain fs' project' where run:
    "renameIndexFile exampleHost ByResolution (exampleDisk, exampleProject) (exampleProject ! 0)
       = Inr (fs', project')"
    using example_ByResolution by blast
  have f: "filePath (exampleProject ! 0) \<noteq> ''null''" by (simp add: exampleProject_def)
  have i: "2 < length exampleProject" by (simp add: exampleProject_def)
  have j: "2 < length (importDeclarations (exampleProject ! 2))"
    "3 < length (importDeclarations (exampleProject ! 2))"
    by (simp_all add: exampleProject_def)
  have s: "importDeclarations (exampleProject ! 2) ! 2 = ''./other/Button''"
    "importDeclarations (exampleProject ! 2) ! 3 = ''react''"
    by (simp_all add: exampleProject_def)
  have e: "exampleResolve (filePath (exampleProject ! 2)) ''./other/Button''
       = Some ''/proj/src/other/Button.ts''"
    "exampleResolve (filePath (exampleProject ! 2)) ''react'' = None"
    by (simp_all add: exampleProject_def exampleResolve_def)
  have r: "resolveImport exampleHost fs' (filePath (exampleProject ! 2))
             (importDeclarations (exampleProject ! 2) ! 2) \<noteq> Some (filePath (exampleProject ! 0))"
    "resolveImport exampleHost fs' (filePath (exampleProject ! 2))
             (importDeclarations (exampleProject ! 2) ! 3) \<noteq> Some (filePath (exampleProject ! 0))"
    by (simp_all add: exampleProject_def exampleHost_def exampleResolve_def)
  have a: "importDeclarations (project' ! 2) ! 2 = importDeclarations (exampleProject ! 2) ! 2"
    using C2_frame[OF f run i j(1) r(1)] by blast
  have b: "importDeclarations (project' ! 2) ! 3 = importDeclarations (exampleProject ! 2) ! 3"
    using C2_frame[OF f run i j(2) r(2)] by blast
  show ?thesis
    using f s e run a b by auto
qed

section \<open>The two ways of finding the imports\<close>

lemma updateImportText_changes:
  assumes "parent \<noteq> ''index''"
    and "endsWith spec (''/'' @ parent @ ''/index'') \<or> endsWith spec (''/'' @ parent)"
  shows "updateImportText parent spec \<noteq> spec"
proof (cases "endsWith spec (''/'' @ parent @ ''/index'')")
  case True
  then obtain base where b: "spec = base @ ''/'' @ parent @ ''/index''"
    by (auto simp: endsWith_iff)
  have "length spec - 6 = length (base @ ''/'' @ parent)" by (simp add: b)
  then have "substring0 spec (length spec - 6) = base @ ''/'' @ parent"
    unfolding substring0_def b by (metis append.assoc append_eq_conv_conj)
  then have "updateImportText parent spec = (base @ ''/'' @ parent) @ ''/'' @ parent"
    using True by (simp add: updateImportText_def)
  moreover have "(base @ ''/'' @ parent) @ ''/'' @ parent \<noteq> (base @ ''/'' @ parent) @ ''/index''"
    using assms(1) by simp
  ultimately show ?thesis using b by simp
next
  case False
  then have "updateImportText parent spec = spec @ ''/'' @ parent"
    using assms(2) by (simp add: updateImportText_def)
  then show ?thesis by simp
qed

text \<open>
  Wherever the text of a specifier ends with the name of the parent directory and the
  import resolves to another file, or to none, \<open>src/rename-index-files.ts\<close> keeps the
  specifier and \<open>part_000\<close> changes it.
\<close>

lemma disciplines_differ_at:
  assumes "isStandardIndexFile (path_basename (filePath file))"
    and "filePath file \<noteq> ''null''" and "parentName (filePath file) \<noteq> ''index''"
    and "renameIndexFile h ByResolution (fs, project) file = Inr (fs', a)"
    and "renameIndexFile h BySpecifierText (fs, project) file = Inr (fs'', b)"
    and "i < length project" and "j < length (importDeclarations (project ! i))"
    and "endsWith (importDeclarations (project ! i) ! j) (''/'' @ parentName (filePath file) @ ''/index'')
         \<or> endsWith (importDeclarations (project ! i) ! j) (''/'' @ parentName (filePath file))"
    and "resolveImport h fs' (filePath (project ! i)) (importDeclarations (project ! i) ! j)
           \<noteq> Some (filePath file)"
  shows "importDeclarations (a ! i) ! j = importDeclarations (project ! i) ! j"
    and "importDeclarations (b ! i) ! j \<noteq> importDeclarations (project ! i) ! j"
proof -
  have "a = (if isStandardIndexFile (path_basename (filePath file))
             then updateImports (resolveImport h fs') (filePath file) project else project)"
    using assms(4) by (auto simp: renameIndexFile_def Let_def split: sum.splits)
  moreover have "updateImport (resolveImport h fs') (filePath file) (filePath (project ! i))
          (importDeclarations (project ! i) ! j) = importDeclarations (project ! i) ! j"
    using assms(2,9) by (rule updateImport_other)
  ultimately show "importDeclarations (a ! i) ! j = importDeclarations (project ! i) ! j"
    using assms(1,7) by (simp add: updateImports_nth[OF assms(6)])
  have "b = updateImportsText (filePath file) project"
    using assms(1,5) by (auto simp: renameIndexFile_def Let_def split: sum.splits)
  then have "importDeclarations (b ! i) ! j
      = updateImportText (parentName (filePath file)) (importDeclarations (project ! i) ! j)"
    using assms(6,7) by (simp add: updateImportsText_def)
  then show "importDeclarations (b ! i) ! j \<noteq> importDeclarations (project ! i) ! j"
    using updateImportText_changes[OF assms(3,8)] by simp
qed

text \<open>
  Claim C6. Finding the imports by resolution (\<open>src/rename-index-files.ts\<close>) and finding
  them by the text of the specifier (\<open>part_000\<close>) are not equivalent. In the small project
  the application imports \<open>./other/Button\<close>, which ends with the name of the parent
  directory of the index file but resolves to \<open>/proj/src/other/Button.ts\<close>: the first
  program keeps the specifier, the second turns it into \<open>./other/Button/Button\<close>.
\<close>

theorem C6_not_equivalent:
  "importDeclarations (exampleProject ! 2) ! 2 = ''./other/Button''
   \<and> endsWith ''./other/Button'' (''/'' @ parentName (filePath (exampleProject ! 0)))
   \<and> exampleResolve (filePath (exampleProject ! 2)) ''./other/Button''
       = Some ''/proj/src/other/Button.ts''
   \<and> (\<exists>fs' a b.
         renameIndexFile exampleHost ByResolution (exampleDisk, exampleProject) (exampleProject ! 0)
           = Inr (fs', a)
         \<and> renameIndexFile exampleHost BySpecifierText (exampleDisk, exampleProject)
             (exampleProject ! 0) = Inr (fs', b)
         \<and> importDeclarations (a ! 2) ! 2 = ''./other/Button''
         \<and> importDeclarations (b ! 2) ! 2 = ''./other/Button/Button'')
   \<and> renameIndexFile exampleHost ByResolution (exampleDisk, exampleProject) (exampleProject ! 0)
       \<noteq> renameIndexFile exampleHost BySpecifierText (exampleDisk, exampleProject)
           (exampleProject ! 0)"
proof -
  have s: "importDeclarations (exampleProject ! 2) ! 2 = ''./other/Button''"
    by (simp add: exampleProject_def)
  have e: "endsWith ''./other/Button'' (''/'' @ parentName (filePath (exampleProject ! 0)))"
    by (simp add: exampleProject_def example_names(2) endsWith_def suffix_to_prefix)
  have r: "exampleResolve (filePath (exampleProject ! 2)) ''./other/Button''
       = Some ''/proj/src/other/Button.ts''"
    by (simp add: exampleProject_def exampleResolve_def)
  have x: "\<exists>fs' a b.
         renameIndexFile exampleHost ByResolution (exampleDisk, exampleProject) (exampleProject ! 0)
           = Inr (fs', a)
         \<and> renameIndexFile exampleHost BySpecifierText (exampleDisk, exampleProject)
             (exampleProject ! 0) = Inr (fs', b)
         \<and> importDeclarations (a ! 2) ! 2 = ''./other/Button''
         \<and> importDeclarations (b ! 2) ! 2 = ''./other/Button/Button''"
    unfolding example_ByResolution example_BySpecifierText by simp
  have d: "renameIndexFile exampleHost ByResolution (exampleDisk, exampleProject) (exampleProject ! 0)
       \<noteq> renameIndexFile exampleHost BySpecifierText (exampleDisk, exampleProject)
           (exampleProject ! 0)"
    unfolding example_ByResolution example_BySpecifierText by simp
  show ?thesis by (intro conjI s e r x d)
qed

section \<open>Step 2: the new name and the new path\<close>

lemma standardizedPath_not_null: "standardizedPath p \<Longrightarrow> p \<noteq> ''null''"
  by (auto simp: standardizedPath_def)

lemma pattern_simple_disjoint: "patternMatch f \<noteq> None \<Longrightarrow> simpleMatch f = None"
proof (rule ccontr)
  assume p: "patternMatch f \<noteq> None" and "simpleMatch f \<noteq> None"
  then obtain g where "simpleMatch f = Some g" by auto
  then obtain e where e: "f = ''index'' @ ''.'' @ e" "CHR ''.'' \<notin> set e"
    by (auto simp: simpleMatch_iff)
  from p obtain g1 g2 where "patternMatch f = Some (g1, g2)" by auto
  then obtain mid where "f = ''index'' @ (''.'' @ mid @ ''.'') @ g2"
    using patternMatch_SomeD by blast
  with e show False by auto
qed

lemma extension_pattern:
  assumes "mid \<noteq> []" "\<not> hasLineTerminator mid" "e \<noteq> []" "CHR ''.'' \<notin> set e"
  shows "extension (''index.'' @ mid @ ''.'' @ e) = ''.'' @ mid @ ''.'' @ e"
  using patternMatch_shape[OF assms] by (simp add: extension_def)

lemma extension_simple:
  assumes "e \<noteq> []" "CHR ''.'' \<notin> set e"
  shows "extension (''index.'' @ e) = ''.'' @ e"
proof -
  have s: "simpleMatch (''index.'' @ e) = Some (''.'' @ e)"
    using assms by (simp add: simpleMatch_iff)
  then have "patternMatch (''index.'' @ e) = None"
    using pattern_simple_disjoint by fastforce
  with s show ?thesis by (simp add: extension_def)
qed

text \<open>
  The names the two regular expressions match. A base name \<open>index.M.E\<close>, where the middle
  part \<open>M\<close> is not empty and holds no line terminator and the extension \<open>E\<close> is not
  empty and holds no dot, gives the name of the parent directory followed by \<open>.M.E\<close>; a
  base name \<open>index.E\<close> gives the name of the parent directory followed by \<open>.E\<close>. No base
  name is of both kinds. The new path is the directory of the file joined with the new
  base name: the file stays in its directory.
\<close>

lemma newBaseName_matched:
  assumes "standardizedPath p"
  shows "(\<forall>mid e. path_basename p = ''index.'' @ mid @ ''.'' @ e
             \<and> mid \<noteq> [] \<and> \<not> hasLineTerminator mid
             \<and> e \<noteq> [] \<and> CHR ''.'' \<notin> set e
           \<longrightarrow> newBaseName p = parentName p @ ''.'' @ mid @ ''.'' @ e)
       \<and> (\<forall>e. path_basename p = ''index.'' @ e \<and> e \<noteq> [] \<and> CHR ''.'' \<notin> set e
           \<longrightarrow> newBaseName p = parentName p @ ''.'' @ e)
       \<and> \<not> (patternMatch (path_basename p) \<noteq> None \<and> simpleMatch (path_basename p) \<noteq> None)
       \<and> newFilePath p = path_join [path_dirname p, newBaseName p]
       \<and> path_dirname (newFilePath p) = path_dirname p
       \<and> path_basename (newFilePath p) = newBaseName p"
proof (intro conjI allI impI)
  fix mid e
  assume "path_basename p = ''index.'' @ mid @ ''.'' @ e
             \<and> mid \<noteq> [] \<and> \<not> hasLineTerminator mid
             \<and> e \<noteq> [] \<and> CHR ''.'' \<notin> set e"
  then show "newBaseName p = parentName p @ ''.'' @ mid @ ''.'' @ e"
    using extension_pattern[of mid e] by (simp add: newBaseName_def)
next
  fix e
  assume "path_basename p = ''index.'' @ e \<and> e \<noteq> [] \<and> CHR ''.'' \<notin> set e"
  then show "newBaseName p = parentName p @ ''.'' @ e"
    using extension_simple[of e] by (simp add: newBaseName_def)
next
  show "\<not> (patternMatch (path_basename p) \<noteq> None \<and> simpleMatch (path_basename p) \<noteq> None)"
    using pattern_simple_disjoint[of "path_basename p"] by (cases "patternMatch (path_basename p)") simp_all
next
  show "newFilePath p = path_join [path_dirname p, newBaseName p]"
    by (simp add: newFilePath_def)
next
  show "path_dirname (newFilePath p) = path_dirname p"
    by (rule newFilePath_standardized(2)[OF assms])
next
  show "path_basename (newFilePath p) = newBaseName p"
    by (rule newFilePath_standardized(3)[OF assms])
qed

lemma example_test_names:
  "standardizedPath ''/proj/src/components/Button/index.test.ts''"
  "path_basename ''/proj/src/components/Button/index.test.ts'' = ''index.'' @ ''test'' @ ''.'' @ ''ts''"
  "parentName ''/proj/src/components/Button/index.test.ts'' = ''Button''"
  "path_dirname ''/proj/src/components/Button/index.test.ts'' = ''/proj/src/components/Button''"
  by (simp_all add: standardizedPath_def cleanSegment_def path_basename_def parentName_def
      path_dirname_def)

lemma newBaseName_matched_example:
  "standardizedPath ''/proj/src/components/Button/index.test.ts''
   \<and> newBaseName ''/proj/src/components/Button/index.test.ts'' = ''Button.test.ts''
   \<and> path_dirname (newFilePath ''/proj/src/components/Button/index.test.ts'')
       = ''/proj/src/components/Button''
   \<and> path_basename (newFilePath ''/proj/src/components/Button/index.test.ts'') = ''Button.test.ts''
   \<and> standardizedPath ''/proj/src/components/Button/index.tsx''
   \<and> newBaseName ''/proj/src/components/Button/index.tsx'' = ''Button.tsx''"
proof -
  let ?p = "''/proj/src/components/Button/index.test.ts''"
  let ?q = "''/proj/src/components/Button/index.tsx''"
  note r = newBaseName_matched[OF example_test_names(1)]
  have h: "path_basename ?p = ''index.'' @ ''test'' @ ''.'' @ ''ts''
      \<and> ''test'' \<noteq> [] \<and> \<not> hasLineTerminator ''test''
      \<and> ''ts'' \<noteq> [] \<and> CHR ''.'' \<notin> set ''ts''"
    by (intro conjI example_test_names(2)) (simp_all add: no_line_terminator)
  have "newBaseName ?p = parentName ?p @ ''.'' @ ''test'' @ ''.'' @ ''ts''"
    using conjunct1[OF r] h by blast
  then have n: "newBaseName ?p = ''Button.test.ts''"
    by (simp add: example_test_names(3))
  have d: "path_dirname (newFilePath ?p) = ''/proj/src/components/Button''"
    using conjunct1[OF conjunct2[OF conjunct2[OF conjunct2[OF conjunct2[OF r]]]]]
    by (simp add: example_test_names(4))
  have b: "path_basename (newFilePath ?p) = ''Button.test.ts''"
    using conjunct2[OF conjunct2[OF conjunct2[OF conjunct2[OF conjunct2[OF r]]]]] n by simp
  have q: "standardizedPath ?q"
    by (simp add: standardizedPath_def cleanSegment_def)
  have "path_basename ?q = ''index.'' @ ''tsx''" by (simp add: example_names(1))
  then have "path_basename ?q = ''index.'' @ ''tsx'' \<and> ''tsx'' \<noteq> [] \<and> CHR ''.'' \<notin> set ''tsx''"
    by simp
  then have "newBaseName ?q = parentName ?q @ ''.'' @ ''tsx''"
    using conjunct1[OF conjunct2[OF newBaseName_matched[OF q]]] by blast
  then have m: "newBaseName ?q = ''Button.tsx''" by (simp add: example_names(2))
  show ?thesis
    by (intro conjI example_test_names(1) n d b q m)
qed

text \<open>
  Claim C4. For every selected index file one new name is computed from its base name:
  \<open>index\<close>, then middle segments set off by dots, then an extension without a dot gives
  the name of the parent directory followed by all that stands after \<open>index\<close>; otherwise
  \<open>index\<close> and one extension without a dot gives the name of the parent directory followed
  by that extension; the file stays in its directory.

  The code does not do this for a middle segment that holds a line terminator. The file
  \<open>index.a<LF>b.ts\<close> in the directory \<open>Button\<close> is selected; the \<open>.+\<close> of
  \<open>/^index(\..+\.)([^.]+)$/\<close> stops at the line feed, the other regular expression does
  not allow the second dot, and the file becomes \<open>Button.tsx\<close> where the claim, and the
  comment of the source on keeping the middle parts, ask for \<open>Button.a<LF>b.ts\<close>. The
  same happens with the line separator U+2028 in the middle. The \<open>[^.]+\<close> of the other
  regular expression has no such gap: \<open>index.a<LF>b\<close> becomes \<open>Button.a<LF>b\<close>.
\<close>

theorem C4_line_terminator:
  "isIndexFile (normalizePath ''src'') ''/proj/src/components/Button/index.a\<newline>b.ts''
   \<and> path_basename ''/proj/src/components/Button/index.a\<newline>b.ts''
       = ''index.'' @ ''a\<newline>b'' @ ''.'' @ ''ts''
   \<and> patternMatch ''index.a\<newline>b.ts'' = None
   \<and> simpleMatch ''index.a\<newline>b.ts'' = None
   \<and> newBaseName ''/proj/src/components/Button/index.a\<newline>b.ts'' = ''Button.tsx''
   \<and> newBaseName ''/proj/src/components/Button/index.a\<newline>b.ts''
       \<noteq> ''Button'' @ ''.'' @ ''a\<newline>b'' @ ''.'' @ ''ts''
   \<and> newFilePath ''/proj/src/components/Button/index.a\<newline>b.ts''
       = ''/proj/src/components/Button/Button.tsx''
   \<and> newBaseName (''/proj/src/components/Button/index.a'' @ [CHR 0xE2, CHR 0x80, CHR 0xA8] @ ''b.ts'')
       = ''Button.tsx''
   \<and> newBaseName ''/proj/src/components/Button/index.a\<newline>b'' = ''Button.a\<newline>b''"
proof -
  let ?p = "''/proj/src/components/Button/index.a\<newline>b.ts''"
  let ?q = "''/proj/src/components/Button/index.a'' @ [CHR 0xE2, CHR 0x80, CHR 0xA8] @ ''b.ts''"
  let ?r = "''/proj/src/components/Button/index.a\<newline>b''"
  have b: "path_basename ?p = ''index.a\<newline>b.ts''"
    by (simp add: path_basename_def)
  have "normalizePath ?p = ''/proj/'' @ normalizePath ''src'' @ ''/components/Button/index.a\<newline>b.ts''"
    by (simp add: normalizePath_def)
  then have "str_includes (normalizePath ?p) (normalizePath ''src'')"
    unfolding str_includes_iff by blast
  moreover have "path_basename (normalizePath ?p) = ''index.'' @ ''a\<newline>b.ts''"
    by (simp add: normalizePath_def path_basename_def)
  ultimately have i: "isIndexFile (normalizePath ''src'') ?p"
    by (simp add: isIndexFile_def Let_def startsWith_def del: append.simps)
  have dp: "path_dirname ?p = ''/proj/src/components/Button''"
    by (simp add: path_dirname_def)
  have d: "parentName ?p = ''Button''"
    by (simp add: parentName_def dp path_basename_def)
  have pm: "patternMatch ''index.a\<newline>b.ts'' = None"
    by (simp add: patternMatch_def startsWith_def hasLineTerminator_def)
  have sm: "simpleMatch ''index.a\<newline>b.ts'' = None"
    by (simp add: simpleMatch_def startsWith_def)
  have n: "newBaseName ?p = ''Button.tsx''"
    by (simp add: newBaseName_def b d extension_def pm sm)
  have f: "newFilePath ?p = ''/proj/src/components/Button/Button.tsx''"
    unfolding newFilePath_def n dp
    by (simp add: path_join_def path_normalize_def normalizeString_def normalizeSegment_def)
  have bq: "path_basename ?q = ''index.a'' @ [CHR 0xE2, CHR 0x80, CHR 0xA8] @ ''b.ts''"
    by (simp add: path_basename_def)
  have dq: "parentName ?q = ''Button''"
    by (simp add: parentName_def path_dirname_def path_basename_def)
  have "extension (''index.a'' @ [CHR 0xE2, CHR 0x80, CHR 0xA8] @ ''b.ts'') = ''.tsx''"
    by (simp add: extension_def patternMatch_def simpleMatch_def startsWith_def
        hasLineTerminator_def sublist_code)
  then have nq: "newBaseName ?q = ''Button.tsx''"
    by (simp only: newBaseName_def bq dq) simp
  have br: "path_basename ?r = ''index.a\<newline>b''"
    by (simp add: path_basename_def)
  have dr: "parentName ?r = ''Button''"
    by (simp add: parentName_def path_dirname_def path_basename_def)
  have "extension ''index.a\<newline>b'' = ''.a\<newline>b''"
    by (simp add: extension_def patternMatch_def simpleMatch_def startsWith_def)
  then have nr: "newBaseName ?r = ''Button.a\<newline>b''"
    by (simp add: newBaseName_def br dr)
  have ne: "newBaseName ?p \<noteq> ''Button'' @ ''.'' @ ''a\<newline>b'' @ ''.'' @ ''ts''"
    by (simp add: n)
  have b': "path_basename ?p = ''index.'' @ ''a\<newline>b'' @ ''.'' @ ''ts''"
    by (simp add: b)
  show ?thesis
    by (intro conjI i b' pm sm n ne f nq nr)
qed

section \<open>A second run\<close>

lemma index_dot_split:
  assumes "P @ CHR ''.'' # x = ''index.'' @ r"
  shows "P = ''index'' \<or> prefix ''index.'' P"
proof (cases "length P \<le> 5")
  case True
  have "take (length P) (P @ CHR ''.'' # x) = P" by simp
  then have P: "P = take (length P) (''index.'' @ r)" using assms by simp
  have "(P @ CHR ''.'' # x) ! length P = CHR ''.''" by simp
  then have d: "(''index.'' @ r) ! length P = CHR ''.''" using assms by simp
  from True consider "length P = 0" | "length P = 1" | "length P = 2" | "length P = 3"
    | "length P = 4" | "length P = 5" by linarith
  then show ?thesis
  proof cases
    case 6
    then show ?thesis using P by simp
  qed (use d in simp_all)
next
  case False
  then have "6 \<le> length P" by simp
  then have "take 6 (P @ CHR ''.'' # x) = take 6 P" by simp
  then have "take 6 P = ''index.''" using assms by simp
  then have "prefix ''index.'' P" by (metis take_is_prefix)
  then show ?thesis ..
qed

lemma newBaseName_index_iff:
  "startsWith (newBaseName p) ''index.'' \<longleftrightarrow>
     parentName p = ''index'' \<or> startsWith (parentName p) ''index.''"
proof -
  obtain x where x: "extension (path_basename p) = CHR ''.'' # x"
    using extension_form[of "path_basename p"] by auto
  show ?thesis
  proof
    assume "startsWith (newBaseName p) ''index.''"
    then obtain r where "parentName p @ CHR ''.'' # x = ''index.'' @ r"
      by (auto simp: startsWith_iff newBaseName_def x)
    then show "parentName p = ''index'' \<or> startsWith (parentName p) ''index.''"
      unfolding startsWith_def by (rule index_dot_split)
  next
    assume "parentName p = ''index'' \<or> startsWith (parentName p) ''index.''"
    then show "startsWith (newBaseName p) ''index.''"
      by (auto simp: startsWith_iff newBaseName_def x)
  qed
qed

text \<open>
  Claim C7, as the code has it. A file renamed by a first run is not selected by a second
  run when the name of its parent directory is not \<open>index\<close> and does not start with
  \<open>index.\<close>: its new base name, the name of the parent directory followed by the
  extension, does not start with \<open>index.\<close>, so no target folder selects its new path.
\<close>

theorem C7_second_run:
  assumes "standardizedPath p"
    and "parentName p \<noteq> ''index''"
    and "\<not> startsWith (parentName p) ''index.''"
  shows "\<not> startsWith (newBaseName p) ''index.''
       \<and> path_basename (normalizePath (newFilePath p)) = newBaseName p
       \<and> \<not> isIndexFile (normalizePath targetFolderPath) (newFilePath p)
       \<and> \<lparr>filePath = newFilePath p, importDeclarations = imports\<rparr>
            \<notin> set (indexFiles targetFolderPath allSourceFiles)"
proof -
  have n: "\<not> startsWith (newBaseName p) ''index.''"
    using assms(2,3) by (simp add: newBaseName_index_iff)
  have "normalizePath (newFilePath p) = newFilePath p"
    using newFilePath_standardized(1)[OF assms(1)]
    by (intro normalizePath_id standardizedPath_no_backslash)
  then have b: "path_basename (normalizePath (newFilePath p)) = newBaseName p"
    using newFilePath_standardized(3)[OF assms(1)] by simp
  have i: "\<not> isIndexFile t (newFilePath p)" for t
    using n b by (simp add: isIndexFile_def Let_def)
  show ?thesis using n b i by (simp add: indexFiles_def)
qed

theorem C7_second_run_witness:
  "standardizedPath ''/proj/src/components/Button/index.tsx''
   \<and> isIndexFile (normalizePath ''src'') ''/proj/src/components/Button/index.tsx''
   \<and> newFilePath ''/proj/src/components/Button/index.tsx''
       = ''/proj/src/components/Button/Button.tsx''
   \<and> \<not> startsWith (newBaseName ''/proj/src/components/Button/index.tsx'') ''index.''
   \<and> \<not> isIndexFile (normalizePath ''src'') (newFilePath ''/proj/src/components/Button/index.tsx'')"
proof -
  let ?p = "''/proj/src/components/Button/index.tsx''"
  have s: "standardizedPath ?p"
    by (simp add: standardizedPath_def cleanSegment_def)
  have "normalizePath ?p = ''/proj/'' @ normalizePath ''src'' @ ''/components/Button/index.tsx''"
    by (simp add: normalizePath_def)
  then have "str_includes (normalizePath ?p) (normalizePath ''src'')"
    unfolding str_includes_iff by blast
  moreover have "path_basename (normalizePath ?p) = ''index.'' @ ''tsx''"
    by (simp add: normalizePath_def path_basename_def)
  ultimately have i: "isIndexFile (normalizePath ''src'') ?p"
    by (simp add: isIndexFile_def Let_def startsWith_def del: append.simps)
  have a: "parentName ?p \<noteq> ''index''" "\<not> startsWith (parentName ?p) ''index.''"
    by (simp_all add: example_names(2) startsWith_def)
  note r = C7_second_run[OF s a, of "''src''"]
  show ?thesis
    by (intro conjI s i example_names(3) conjunct1[OF r]
        conjunct1[OF conjunct2[OF conjunct2[OF r]]])
qed

text \<open>
  The claim as it was written covers every parent directory. A file in a directory whose
  name starts with \<open>index.\<close> gets a new base name that starts with \<open>index.\<close> again, and
  the second run selects it and renames it once more.
\<close>

theorem C7_second_run_counterexample:
  "standardizedPath ''/proj/src/index.v2/index.ts''
   \<and> isIndexFile (normalizePath ''src'') ''/proj/src/index.v2/index.ts''
   \<and> newFilePath ''/proj/src/index.v2/index.ts'' = ''/proj/src/index.v2/index.v2.ts''
   \<and> startsWith (newBaseName ''/proj/src/index.v2/index.ts'') ''index.''
   \<and> isIndexFile (normalizePath ''src'') (newFilePath ''/proj/src/index.v2/index.ts'')
   \<and> newFilePath (newFilePath ''/proj/src/index.v2/index.ts'')
       = ''/proj/src/index.v2/index.v2.v2.ts''"
proof -
  let ?p = "''/proj/src/index.v2/index.ts''"
  let ?q = "''/proj/src/index.v2/index.v2.ts''"
  have s: "standardizedPath ?p"
    by (simp add: standardizedPath_def cleanSegment_def)
  have d: "path_dirname ?p = ''/proj/src/index.v2''" "path_dirname ?q = ''/proj/src/index.v2''"
    by (simp_all add: path_dirname_def)
  have b: "path_basename ?p = ''index.ts''" "path_basename ?q = ''index.v2.ts''"
    by (simp_all add: path_basename_def)
  have P: "parentName ?p = ''index.v2''" "parentName ?q = ''index.v2''"
    by (simp_all add: parentName_def d path_basename_def)
  have e: "extension ''index.ts'' = ''.ts''" "extension ''index.v2.ts'' = ''.v2.ts''"
    by (simp_all add: extension_def patternMatch_def simpleMatch_def startsWith_def
        no_line_terminator)
  have n: "newBaseName ?p = ''index.v2.ts''" "newBaseName ?q = ''index.v2.v2.ts''"
    by (simp_all add: newBaseName_def b P e)
  have f: "newFilePath ?p = ?q"
    unfolding newFilePath_def n d
    by (simp add: path_join_def path_normalize_def normalizeString_def normalizeSegment_def)
  have g: "newFilePath ?q = ''/proj/src/index.v2/index.v2.v2.ts''"
    unfolding newFilePath_def n d
    by (simp add: path_join_def path_normalize_def normalizeString_def normalizeSegment_def)
  have inc: "str_includes (normalizePath ?p) (normalizePath ''src'')"
    "str_includes (normalizePath ?q) (normalizePath ''src'')"
  proof -
    have "normalizePath ?p = ''/proj/'' @ normalizePath ''src'' @ ''/index.v2/index.ts''"
      by (simp add: normalizePath_def)
    then show "str_includes (normalizePath ?p) (normalizePath ''src'')"
      unfolding str_includes_iff by blast
    have "normalizePath ?q = ''/proj/'' @ normalizePath ''src'' @ ''/index.v2/index.v2.ts''"
      by (simp add: normalizePath_def)
    then show "str_includes (normalizePath ?q) (normalizePath ''src'')"
      unfolding str_includes_iff by blast
  qed
  have nb: "path_basename (normalizePath ?p) = ''index.'' @ ''ts''"
    "path_basename (normalizePath ?q) = ''index.'' @ ''v2.ts''"
    by (simp_all add: normalizePath_def path_basename_def)
  have i: "isIndexFile (normalizePath ''src'') ?p" "isIndexFile (normalizePath ''src'') ?q"
    using inc nb by (simp_all add: isIndexFile_def Let_def startsWith_def del: append.simps)
  have w: "startsWith (newBaseName ?p) ''index.''"
    by (simp add: n startsWith_def)
  show ?thesis
    unfolding f g by (intro conjI s i refl) (use w in simp)
qed

end
